theory Spec2Isabelle
  imports Complex_Main "HOL-Library.Multiset"
begin

section \<open>JavaScript values\<close>

text \<open>
  The task controller (\<^verbatim>\<open>controllers/taskController.js\<close>) reads JSON request bodies and
  URL query strings. A body value is one of the constructors below; \<open>JDate\<close> (a time
  value in milliseconds since the epoch) only occurs in stored documents, \<open>JOther\<close>
  stands for an object or an array. Numbers are modelled as \<open>int\<close>: a JavaScript
  Number agrees with it on every integer of magnitude at most \<open>2 ^ 53\<close>.
  Strings are byte strings in UTF-8.
\<close>

datatype jsval = JUndefined | JNull | JBool bool | JNum int | JStr string | JDate int | JOther

text \<open>ToBoolean, as used by \<^verbatim>\<open>!x\<close> and \<^verbatim>\<open>if (x)\<close>.\<close>

fun truthy :: "jsval \<Rightarrow> bool" where
  "truthy JUndefined = False"
| "truthy JNull = False"
| "truthy (JBool b) = b"
| "truthy (JNum n) = (n \<noteq> 0)"
| "truthy (JStr s) = (s \<noteq> [])"
| "truthy (JDate t) = True"
| "truthy JOther = True"

subsection \<open>parseInt\<close>

text \<open>
  \<^verbatim>\<open>parseInt(string)\<close> with no radix (ECMA-262, 19.2.5): leading white space is
  skipped, an optional sign is read, a \<^verbatim>\<open>0x\<close>/\<^verbatim>\<open>0X\<close> prefix selects radix 16,
  the longest prefix of digits is converted, and the result is NaN (\<open>None\<close>) when that
  prefix is empty. White space is WhiteSpace and LineTerminator: TAB, LF, VT, FF, CR, SP
  and the code points U+00A0, U+1680, U+2000 to U+200A, U+2028, U+2029, U+202F, U+205F,
  U+3000 and U+FEFF, which are two or three bytes in UTF-8.
\<close>

definition isWs1 :: "char \<Rightarrow> bool" where
  "isWs1 a = (a \<in> set [CHR 0x09, CHR 0x0A, CHR 0x0B, CHR 0x0C, CHR 0x0D, CHR 0x20])"

definition isWs2 :: "char \<Rightarrow> char \<Rightarrow> bool" where
  "isWs2 a b = (a = CHR 0xC2 \<and> b = CHR 0xA0)"

definition isWs3 :: "char \<Rightarrow> char \<Rightarrow> char \<Rightarrow> bool" where
  "isWs3 a b c =
     ((a = CHR 0xE1 \<and> b = CHR 0x9A \<and> c = CHR 0x80)
      \<or> (a = CHR 0xE2 \<and> b = CHR 0x80 \<and>
           c \<in> set [CHR 0x80, CHR 0x81, CHR 0x82, CHR 0x83, CHR 0x84, CHR 0x85, CHR 0x86,
                     CHR 0x87, CHR 0x88, CHR 0x89, CHR 0x8A, CHR 0xA8, CHR 0xA9, CHR 0xAF])
      \<or> (a = CHR 0xE2 \<and> b = CHR 0x81 \<and> c = CHR 0x9F)
      \<or> (a = CHR 0xE3 \<and> b = CHR 0x80 \<and> c = CHR 0x80)
      \<or> (a = CHR 0xEF \<and> b = CHR 0xBB \<and> c = CHR 0xBF))"

fun trimStart :: "string \<Rightarrow> string" where
  "trimStart (a # b # c # s) =
     (if isWs1 a then trimStart (b # c # s)
      else if isWs2 a b then trimStart (c # s)
      else if isWs3 a b c then trimStart s
      else a # b # c # s)"
| "trimStart [a, b] =
     (if isWs1 a then trimStart [b] else if isWs2 a b then [] else [a, b])"
| "trimStart [a] = (if isWs1 a then [] else [a])"
| "trimStart [] = []"

fun signOf :: "string \<Rightarrow> int \<times> string" where
  "signOf (c # s) =
     (if c = CHR ''-'' then (- 1, s) else if c = CHR ''+'' then (1, s) else (1, c # s))"
| "signOf [] = (1, [])"

fun radixOf :: "string \<Rightarrow> nat \<times> string" where
  "radixOf (a # b # s) =
     (if a = CHR ''0'' \<and> (b = CHR ''x'' \<or> b = CHR ''X'') then (16, s) else (10, a # b # s))"
| "radixOf s = (10, s)"

definition digitVal :: "char \<Rightarrow> nat option" where
  "digitVal c =
     (let n = (of_char c :: nat)
      in if 48 \<le> n \<and> n \<le> 57 then Some (n - 48)
         else if 97 \<le> n \<and> n \<le> 122 then Some (n - 87)
         else if 65 \<le> n \<and> n \<le> 90 then Some (n - 55)
         else None)"

definition radixDigit :: "nat \<Rightarrow> char \<Rightarrow> nat option" where
  "radixDigit R c = (case digitVal c of None \<Rightarrow> None | Some d \<Rightarrow> if d < R then Some d else None)"

fun leadingDigits :: "nat \<Rightarrow> string \<Rightarrow> nat list" where
  "leadingDigits R [] = []"
| "leadingDigits R (c # s) =
     (case radixDigit R c of None \<Rightarrow> [] | Some d \<Rightarrow> d # leadingDigits R s)"

definition mathInt :: "nat \<Rightarrow> nat list \<Rightarrow> nat" where
  "mathInt R ds = foldl (\<lambda>acc d. acc * R + d) 0 ds"

definition parseInt :: "string \<Rightarrow> int option" where
  "parseInt input =
     (let (sign, s) = signOf (trimStart input);
          (R, s') = radixOf s;
          Z = leadingDigits R s'
      in if Z = [] then None else Some (sign * int (mathInt R Z)))"

text \<open>
  A query parameter is a string or absent; \<^verbatim>\<open>parseInt\<close> first applies ToString, which
  renders \<^verbatim>\<open>undefined\<close> as the text \<^verbatim>\<open>undefined\<close>.
\<close>

fun toString :: "string option \<Rightarrow> string" where
  "toString None = ''undefined''"
| "toString (Some s) = s"

text \<open>
  \<^verbatim>\<open>parseInt(req.query.page) || 1\<close> and \<^verbatim>\<open>parseInt(req.query.limit) || 3\<close>: the
  right operand replaces a falsy left operand, that is NaN and zero.
\<close>

definition parseIntOr :: "string option \<Rightarrow> int \<Rightarrow> int" where
  "parseIntOr q d = (case parseInt (toString q) of None \<Rightarrow> d | Some n \<Rightarrow> if n = 0 then d else n)"

subsection \<open>Dates\<close>

text \<open>
  A Date is its time value, \<open>None\<close> for an invalid date. \<^verbatim>\<open>setHours(0, 0, 0, 0)\<close>
  moves a date to the midnight that starts its day in the server's local time, here a
  fixed offset \<open>tz\<close> (milliseconds east of UTC); an invalid date stays invalid.
  The relational operator \<^verbatim>\<open><\<close> on two dates compares the time values and is false
  when one of them is NaN.
\<close>

definition msPerDay :: int where
  "msPerDay = 86400000"

definition localDay :: "int \<Rightarrow> int \<Rightarrow> int" where
  "localDay tz t = (t + tz) div msPerDay"

definition setHours0 :: "int \<Rightarrow> int option \<Rightarrow> int option" where
  "setHours0 tz d = map_option (\<lambda>t. localDay tz t * msPerDay - tz) d"

fun dateLess :: "int option \<Rightarrow> int option \<Rightarrow> bool" where
  "dateLess (Some a) (Some b) = (a < b)"
| "dateLess _ _ = False"

section \<open>The Task collection\<close>

text \<open>
  An ObjectId is identified with the text \<^verbatim>\<open>toString()\<close> renders it as, which is how
  the controller compares two of them. A stored task holds the paths of section 3 of
  the specification (\<open>task_id\<close> is the path \<^verbatim>\<open>_id\<close>). The collection is the list
  of its documents.
\<close>

type_synonym oid = string

record task =
  task_id :: oid
  title :: jsval
  description :: jsval
  dueDate :: jsval
  priority :: jsval
  status :: jsval
  assignedTo :: oid
  createdBy :: oid
  createdAt :: int

datatype field = Title | Description | DueDate | Priority | Status | AssignedTo

record user_summary =
  name :: string
  email :: string

text \<open>A task after \<^verbatim>\<open>populate('assignedTo', 'name email')\<close> and
  \<^verbatim>\<open>populate('createdBy', 'name email')\<close>: a reference to a user that does not exist
  is populated with \<^verbatim>\<open>null\<close>.\<close>

record populated =
  doc :: task
  assignee :: "user_summary option"
  creator :: "user_summary option"

text \<open>
  What a handler takes from outside the controller: the clock, the server's time zone,
  the Date constructor applied to a body value, the casts that Mongoose applies with
  the Task schema to a value written to a path (\<open>None\<close> when the cast or a validator
  of the path fails) and to an id (\<open>None\<close> for a text that is no ObjectId), the User
  collection, and the ObjectId the driver generates for the next inserted document.
  The Task schema (\<^verbatim>\<open>models/Task.js\<close>) is not among the sources, so its casts are
  parameters.
\<close>

record env =
  now :: int
  tzOffset :: int
  newDate :: "jsval \<Rightarrow> int option"
  castPath :: "field \<Rightarrow> jsval \<Rightarrow> jsval option"
  castObjectId :: "jsval \<Rightarrow> oid option"
  users :: "oid \<Rightarrow> user_summary option"
  newId :: oid

text \<open>The request: \<^verbatim>\<open>req.user._id\<close> (set by the authentication middleware),
  \<^verbatim>\<open>req.params.id\<close>, \<^verbatim>\<open>req.body\<close> (a key that is not sent reads as
  \<^verbatim>\<open>undefined\<close>) and the two query parameters.\<close>

record request =
  user :: oid
  params_id :: string
  body :: "field \<Rightarrow> jsval"
  query_page :: "string option"
  query_limit :: "string option"

text \<open>The failures of a handler: the responses with status 400, 404 and 403, each with
  its message, and the response with status 500 that every \<^verbatim>\<open>catch\<close> block sends.\<close>

datatype error = InvalidInput string | NotFound string | Forbidden string | StoreFailure

subsection \<open>Store operations\<close>

definition findById :: "oid \<Rightarrow> task list \<Rightarrow> task option" where
  "findById i ts = List.find (\<lambda>t. task_id t = i) ts"

fun replaceFirst :: "oid \<Rightarrow> task \<Rightarrow> task list \<Rightarrow> task list" where
  "replaceFirst i t' [] = []"
| "replaceFirst i t' (t # ts) = (if task_id t = i then t' # ts else t # replaceFirst i t' ts)"

fun deleteFirst :: "oid \<Rightarrow> task list \<Rightarrow> task list" where
  "deleteFirst i [] = []"
| "deleteFirst i (t # ts) = (if task_id t = i then ts else t # deleteFirst i ts)"

definition findByIdAndDelete :: "oid \<Rightarrow> task list \<Rightarrow> task list" where
  "findByIdAndDelete i ts = deleteFirst i ts"

text \<open>Writing one path of a document, with the cast of the schema.\<close>

fun setPath :: "env \<Rightarrow> field \<Rightarrow> jsval \<Rightarrow> task \<Rightarrow> task option" where
  "setPath e Title v t = map_option (\<lambda>w. t\<lparr>title := w\<rparr>) (castPath e Title v)"
| "setPath e Description v t = map_option (\<lambda>w. t\<lparr>description := w\<rparr>) (castPath e Description v)"
| "setPath e DueDate v t = map_option (\<lambda>w. t\<lparr>dueDate := w\<rparr>) (castPath e DueDate v)"
| "setPath e Priority v t = map_option (\<lambda>w. t\<lparr>priority := w\<rparr>) (castPath e Priority v)"
| "setPath e Status v t = map_option (\<lambda>w. t\<lparr>status := w\<rparr>) (castPath e Status v)"
| "setPath e AssignedTo v t = map_option (\<lambda>i. t\<lparr>assignedTo := i\<rparr>) (castObjectId e v)"

text \<open>
  An update document \<^verbatim>\<open>{ path: value, ... }\<close> applied to a document. Mongoose (from
  version 6, the version whose \<^verbatim>\<open>populate\<close> returns the promise that the controller
  awaits) removes every key whose value is \<^verbatim>\<open>undefined\<close> from an update before it
  is sent; with \<^verbatim>\<open>runValidators\<close> a value that its path refuses makes the update
  fail.
\<close>

fun applyUpdate :: "env \<Rightarrow> (field \<times> jsval) list \<Rightarrow> task \<Rightarrow> task option" where
  "applyUpdate e [] t = Some t"
| "applyUpdate e ((f, v) # ps) t =
     (if v = JUndefined then applyUpdate e ps t
      else case setPath e f v t of None \<Rightarrow> None | Some t' \<Rightarrow> applyUpdate e ps t')"

text \<open>The casts and validators of an update run before it is sent, whether or not a
  document has the id.\<close>

fun pathOk :: "env \<Rightarrow> field \<Rightarrow> jsval \<Rightarrow> bool" where
  "pathOk e AssignedTo v = (castObjectId e v \<noteq> None)"
| "pathOk e f v = (castPath e f v \<noteq> None)"

definition validUpdate :: "env \<Rightarrow> (field \<times> jsval) list \<Rightarrow> bool" where
  "validUpdate e upd = list_all (\<lambda>(f, v). v = JUndefined \<or> pathOk e f v) upd"

text \<open>\<^verbatim>\<open>findByIdAndUpdate(id, update, { new: true, runValidators: true })\<close>: \<open>None\<close> when
  it throws, else the updated document (\<^verbatim>\<open>null\<close> when no document has the id) and
  the collection.\<close>

definition findByIdAndUpdate ::
  "env \<Rightarrow> oid \<Rightarrow> (field \<times> jsval) list \<Rightarrow> task list \<Rightarrow> (task option \<times> task list) option" where
  "findByIdAndUpdate e i upd ts =
     (if \<not> validUpdate e upd then None
      else case findById i ts of
        None \<Rightarrow> Some (None, ts)
      | Some t \<Rightarrow>
          (case applyUpdate e upd t of
             None \<Rightarrow> None
           | Some t' \<Rightarrow> Some (Some t', replaceFirst i t' ts)))"

text \<open>
  Modelled from the spec: \<^verbatim>\<open>Task.create\<close> runs the Task schema of
  \<^verbatim>\<open>models/Task.js\<close>, which is not among the sources. By section 3 of the
  specification the status of a new task defaults to pending and its createdAt is the
  time of creation; the id is assigned at creation. The casts of the paths are those of
  the environment; a failing cast and an id already in the collection make it throw
  (\<open>None\<close>).
\<close>

definition Task_create ::
  "env \<Rightarrow> jsval \<Rightarrow> jsval \<Rightarrow> jsval \<Rightarrow> jsval \<Rightarrow> jsval \<Rightarrow> oid \<Rightarrow> task list
     \<Rightarrow> (task \<times> task list) option" where
  "Task_create e ti de du pr asg cb ts =
     (case castPath e Title ti of None \<Rightarrow> None | Some ti' \<Rightarrow>
     (case castPath e Description de of None \<Rightarrow> None | Some de' \<Rightarrow>
     (case castPath e DueDate du of None \<Rightarrow> None | Some du' \<Rightarrow>
     (case castPath e Priority pr of None \<Rightarrow> None | Some pr' \<Rightarrow>
     (case castObjectId e asg of None \<Rightarrow> None | Some a \<Rightarrow>
        (if newId e \<in> set (map task_id ts) then None
         else (let t = \<lparr>task_id = newId e, title = ti', description = de', dueDate = du',
                        priority = pr', status = JStr ''pending'', assignedTo = a,
                        createdBy = cb, createdAt = now e\<rparr>
               in Some (t, ts @ [t]))))))))"

subsection \<open>Queries\<close>

text \<open>The filters the controller builds: \<^verbatim>\<open>{ path: id }\<close>,
  \<^verbatim>\<open>{ path: { $ne: id } }\<close>, several conditions in one object (a conjunction) and
  \<^verbatim>\<open>$or\<close>.\<close>

datatype ref = RefCreatedBy | RefAssignedTo

datatype query = QEq ref oid | QNe ref oid | QAnd query query | QOr query query

fun refOf :: "ref \<Rightarrow> task \<Rightarrow> oid" where
  "refOf RefCreatedBy t = createdBy t"
| "refOf RefAssignedTo t = assignedTo t"

fun matches :: "query \<Rightarrow> task \<Rightarrow> bool" where
  "matches (QEq r u) t = (refOf r t = u)"
| "matches (QNe r u) t = (refOf r t \<noteq> u)"
| "matches (QAnd p q) t = (matches p t \<and> matches q t)"
| "matches (QOr p q) t = (matches p t \<or> matches q t)"

definition countDocuments :: "query \<Rightarrow> task list \<Rightarrow> nat" where
  "countDocuments q ts = length (filter (matches q) ts)"

text \<open>\<^verbatim>\<open>sort({ createdAt: -1 })\<close>: newest first.\<close>

definition sortDesc :: "task list \<Rightarrow> task list" where
  "sortDesc ts = sort_key (\<lambda>t. - createdAt t) ts"

text \<open>
  \<^verbatim>\<open>find(query).sort(...).limit(limit).skip(skip)\<close>: the server skips, then limits,
  whatever the order of the calls. It refuses a negative skip (the query throws,
  \<open>None\<close>); the driver sends a negative limit as its absolute value, and a limit of
  zero is no limit.
\<close>

definition limitTo :: "int \<Rightarrow> task list \<Rightarrow> task list" where
  "limitTo l xs = (if l = 0 then xs else take (nat \<bar>l\<bar>) xs)"

definition Task_find :: "query \<Rightarrow> int \<Rightarrow> int \<Rightarrow> task list \<Rightarrow> task list option" where
  "Task_find q l skip ts =
     (if skip < 0 then None
      else Some (limitTo l (drop (nat skip) (sortDesc (filter (matches q) ts)))))"

definition populate :: "env \<Rightarrow> task \<Rightarrow> populated" where
  "populate e t = \<lparr>doc = t, assignee = users e (assignedTo t), creator = users e (createdBy t)\<rparr>"

section \<open>The handlers\<close>

text \<open>
  A handler maps the request and the collection to its response and, when it writes,
  the collection afterwards. A response is \<open>Inl\<close> of a failure or \<open>Inr\<close> of the
  payload of a success. Whatever throws inside the \<^verbatim>\<open>try\<close> block ends in
  \<open>StoreFailure\<close>.
\<close>

subsection \<open>The due date check\<close>

text \<open>\<^verbatim>\<open>const today = new Date(); today.setHours(0, 0, 0, 0);\<close>\<close>

definition today :: "env \<Rightarrow> int option" where
  "today e = setHours0 (tzOffset e) (Some (now e))"

text \<open>\<^verbatim>\<open>const taskDueDate = new Date(dueDate); taskDueDate.setHours(0, 0, 0, 0);\<close>\<close>

definition taskDueDate :: "env \<Rightarrow> jsval \<Rightarrow> int option" where
  "taskDueDate e v = setHours0 (tzOffset e) (newDate e v)"

subsection \<open>createTask\<close>

definition createTask :: "env \<Rightarrow> request \<Rightarrow> task list \<Rightarrow> (error + populated) \<times> task list" where
  "createTask e req ts =
     (let ti = body req Title; de = body req Description; du = body req DueDate;
          pr = body req Priority; asg = body req AssignedTo
      in if \<not> truthy ti \<or> \<not> truthy de \<or> \<not> truthy du \<or> \<not> truthy pr \<or> \<not> truthy asg
         then (Inl (InvalidInput ''Please provide all required fields''), ts)
         else if dateLess (taskDueDate e du) (today e)
         then (Inl (InvalidInput ''Due date cannot be in the past''), ts)
         else (case Task_create e ti de du pr asg (user req) ts of
                 None \<Rightarrow> (Inl StoreFailure, ts)
               | Some (t, ts') \<Rightarrow> (Inr (populate e t), ts')))"

subsection \<open>The three listings\<close>

record list_response =
  count :: nat
  total :: nat
  page :: int
  pages :: int
  data :: "populated list"

text \<open>\<^verbatim>\<open>Math.ceil(total / limit)\<close>, for a limit that is not zero.\<close>

definition ceilDiv :: "int \<Rightarrow> int \<Rightarrow> int" where
  "ceilDiv a b = - ((- a) div b)"

text \<open>The part the three listings share, from \<^verbatim>\<open>skip\<close> to the response.\<close>

definition paginate :: "env \<Rightarrow> query \<Rightarrow> int \<Rightarrow> int \<Rightarrow> task list \<Rightarrow> error + list_response" where
  "paginate e q p l ts =
     (let skip = (p - 1) * l;
          n = countDocuments q ts
      in case Task_find q l skip ts of
           None \<Rightarrow> Inl StoreFailure
         | Some tasks \<Rightarrow>
             Inr \<lparr>count = length tasks, total = n, page = p,
                  pages = ceilDiv (int n) l, data = map (populate e) tasks\<rparr>)"

definition listing :: "env \<Rightarrow> request \<Rightarrow> query \<Rightarrow> task list \<Rightarrow> error + list_response" where
  "listing e req q ts =
     paginate e q (parseIntOr (query_page req) 1) (parseIntOr (query_limit req) 3) ts"

definition getTasks :: "env \<Rightarrow> request \<Rightarrow> task list \<Rightarrow> error + list_response" where
  "getTasks e req ts =
     listing e req (QOr (QEq RefCreatedBy (user req)) (QEq RefAssignedTo (user req))) ts"

definition getAssignedTasks :: "env \<Rightarrow> request \<Rightarrow> task list \<Rightarrow> error + list_response" where
  "getAssignedTasks e req ts =
     listing e req (QAnd (QEq RefAssignedTo (user req)) (QNe RefCreatedBy (user req))) ts"

definition getCreatedTasks :: "env \<Rightarrow> request \<Rightarrow> task list \<Rightarrow> error + list_response" where
  "getCreatedTasks e req ts = listing e req (QEq RefCreatedBy (user req)) ts"

subsection \<open>getTaskById\<close>

text \<open>The task is populated before the check, and the check reads \<^verbatim>\<open>_id\<close> of both
  populated references: on a reference that is \<^verbatim>\<open>null\<close> this throws.\<close>

definition getTaskById :: "env \<Rightarrow> request \<Rightarrow> task list \<Rightarrow> error + populated" where
  "getTaskById e req ts =
     (case castObjectId e (JStr (params_id req)) of
        None \<Rightarrow> Inl StoreFailure
      | Some i \<Rightarrow>
          (case findById i ts of
             None \<Rightarrow> Inl (NotFound ''Task not found'')
           | Some t \<Rightarrow>
               (let p = populate e t
                in if creator p = None \<or> assignee p = None then Inl StoreFailure
                   else (let isCreator = (createdBy t = user req);
                             isAssignee = (assignedTo t = user req)
                         in if \<not> isCreator \<and> \<not> isAssignee
                            then Inl (Forbidden ''You are not authorized to view this task'')
                            else Inr p))))"

subsection \<open>updateTask\<close>

text \<open>\<^verbatim>\<open>const { title, description, dueDate, priority, status } = req.body;\<close> and the
  update document \<^verbatim>\<open>{ title, description, dueDate, priority, status }\<close>.\<close>

definition updateOf :: "request \<Rightarrow> (field \<times> jsval) list" where
  "updateOf req =
     [(Title, body req Title), (Description, body req Description),
      (DueDate, body req DueDate), (Priority, body req Priority), (Status, body req Status)]"

definition updateTask ::
  "env \<Rightarrow> request \<Rightarrow> task list \<Rightarrow> (error + populated option) \<times> task list" where
  "updateTask e req ts =
     (case castObjectId e (JStr (params_id req)) of
        None \<Rightarrow> (Inl StoreFailure, ts)
      | Some i \<Rightarrow>
          (case findById i ts of
             None \<Rightarrow> (Inl (NotFound ''Task not found''), ts)
           | Some t \<Rightarrow>
               (let isCreator = (createdBy t = user req);
                    isAssignee = (assignedTo t = user req)
                in if \<not> isCreator \<and> \<not> isAssignee
                   then (Inl (Forbidden ''You are not authorized to update this task''), ts)
                   else if truthy (body req DueDate)
                           \<and> dateLess (taskDueDate e (body req DueDate)) (today e)
                   then (Inl (InvalidInput ''Due date cannot be in the past''), ts)
                   else (case findByIdAndUpdate e i (updateOf req) ts of
                           None \<Rightarrow> (Inl StoreFailure, ts)
                         | Some (r, ts') \<Rightarrow> (Inr (map_option (populate e) r), ts')))))"

subsection \<open>deleteTask\<close>

definition deleteTask :: "env \<Rightarrow> request \<Rightarrow> task list \<Rightarrow> (error + unit) \<times> task list" where
  "deleteTask e req ts =
     (case castObjectId e (JStr (params_id req)) of
        None \<Rightarrow> (Inl StoreFailure, ts)
      | Some i \<Rightarrow>
          (case findById i ts of
             None \<Rightarrow> (Inl (NotFound ''Task not found''), ts)
           | Some t \<Rightarrow>
               (let isCreator = (createdBy t = user req)
                in if \<not> isCreator
                   then (Inl (Forbidden ''Only the task creator can delete this task''), ts)
                   else (Inr (), findByIdAndDelete i ts))))"

subsection \<open>updateTaskStatus\<close>

text \<open>\<^verbatim>\<open>task.status = status; await task.save();\<close> writes the one path, with the
  cast and the validators of the schema.\<close>

definition save_status :: "env \<Rightarrow> jsval \<Rightarrow> task \<Rightarrow> task list \<Rightarrow> (task \<times> task list) option" where
  "save_status e v t ts =
     (case setPath e Status v t of
        None \<Rightarrow> None
      | Some t' \<Rightarrow> Some (t', replaceFirst (task_id t) t' ts))"

definition updateTaskStatus ::
  "env \<Rightarrow> request \<Rightarrow> task list \<Rightarrow> (error + populated) \<times> task list" where
  "updateTaskStatus e req ts =
     (let st = body req Status
      in if \<not> truthy st \<or> st \<notin> set [JStr ''pending'', JStr ''completed'']
         then (Inl (InvalidInput ''Please provide a valid status (pending or completed)''), ts)
         else (case castObjectId e (JStr (params_id req)) of
                 None \<Rightarrow> (Inl StoreFailure, ts)
               | Some i \<Rightarrow>
                   (case findById i ts of
                      None \<Rightarrow> (Inl (NotFound ''Task not found''), ts)
                    | Some t \<Rightarrow>
                        (let isCreator = (createdBy t = user req);
                             isAssignee = (assignedTo t = user req)
                         in if \<not> isCreator \<and> \<not> isAssignee
                            then (Inl (Forbidden ''You are not authorized to update this task''), ts)
                            else (case save_status e st t ts of
                                    None \<Rightarrow> (Inl StoreFailure, ts)
                                  | Some (t', ts') \<Rightarrow> (Inr (populate e t'), ts'))))))"

section \<open>Roles\<close>

text \<open>The participant of a task is its creator or its assignee (glossary of the
  specification).\<close>

definition participant :: "oid \<Rightarrow> task \<Rightarrow> bool" where
  "participant u t = (createdBy t = u \<or> assignedTo t = u)"

text \<open>The five fields a creation needs are all truthy: the negation of the first
  test of \<open>createTask\<close>.\<close>

definition required :: "request \<Rightarrow> bool" where
  "required req =
     (truthy (body req Title) \<and> truthy (body req Description) \<and> truthy (body req DueDate)
      \<and> truthy (body req Priority) \<and> truthy (body req AssignedTo))"

text \<open>The schema takes the fields of a creation request, and the generated id is new.\<close>

definition accepts :: "env \<Rightarrow> request \<Rightarrow> task list \<Rightarrow> bool" where
  "accepts e req ts =
     (castPath e Title (body req Title) \<noteq> None
      \<and> castPath e Description (body req Description) \<noteq> None
      \<and> castPath e DueDate (body req DueDate) \<noteq> None
      \<and> castPath e Priority (body req Priority) \<noteq> None
      \<and> castObjectId e (body req AssignedTo) \<noteq> None
      \<and> newId e \<notin> set (map task_id ts))"

text \<open>The status of the request is one of the two texts \<open>updateTaskStatus\<close> takes.\<close>

definition validStatus :: "request \<Rightarrow> bool" where
  "validStatus req = (body req Status \<in> set [JStr ''pending'', JStr ''completed''])"

text \<open>The creator and the assignee of a task both exist in the User collection.\<close>

definition resolves :: "env \<Rightarrow> task \<Rightarrow> bool" where
  "resolves e t = (users e (createdBy t) \<noteq> None \<and> users e (assignedTo t) \<noteq> None)"

text \<open>A candidate due date is in the past: it is a valid date whose day, in the
  server's local time, is strictly before the day of the clock.\<close>

definition pastDue :: "env \<Rightarrow> jsval \<Rightarrow> bool" where
  "pastDue e v =
     (case newDate e v of
        None \<Rightarrow> False
      | Some t \<Rightarrow> localDay (tzOffset e) t < localDay (tzOffset e) (now e))"

text \<open>What an entry \<open>(f, v)\<close> of an update does to the path it names: nothing when
  \<open>v\<close> is \<^verbatim>\<open>undefined\<close>, else the path holds \<open>v\<close> as the schema casts it.\<close>

definition written :: "env \<Rightarrow> field \<Rightarrow> jsval \<Rightarrow> jsval \<Rightarrow> jsval \<Rightarrow> bool" where
  "written e f v old new =
     (if v = JUndefined then new = old else castPath e f v = Some new)"

section \<open>Notions of the statements about listings\<close>

text \<open>The decimal numeral of a natural number, as a client writes a page number.\<close>

fun dec :: "nat \<Rightarrow> string" where
  "dec n = (if n < 10 then [char_of (48 + n)] else dec (n div 10) @ [char_of (48 + n mod 10)])"

declare dec.simps [simp del]

definition isDigit :: "char \<Rightarrow> bool" where
  "isDigit c = (48 \<le> (of_char c :: nat) \<and> (of_char c :: nat) \<le> 57)"

definition isLetter :: "char \<Rightarrow> bool" where
  "isLetter c =
     ((65 \<le> (of_char c :: nat) \<and> (of_char c :: nat) \<le> 90)
      \<or> (97 \<le> (of_char c :: nat) \<and> (of_char c :: nat) \<le> 122))"

text \<open>The request for page \<open>k\<close> of the listing that a request asks for.\<close>

definition onPage :: "request \<Rightarrow> nat \<Rightarrow> request" where
  "onPage req k = req\<lparr>query_page := Some (dec k)\<rparr>"


fun dataOf :: "error + list_response \<Rightarrow> task list" where
  "dataOf (Inr r) = map doc (data r)"
| "dataOf (Inl _) = []"

text \<open>The three listings, each with the filter it builds for the user of a request.\<close>

definition listings ::
  "request \<Rightarrow> ((env \<Rightarrow> request \<Rightarrow> task list \<Rightarrow> error + list_response) \<times> query) list" where
  "listings req =
     [(getTasks, QOr (QEq RefCreatedBy (user req)) (QEq RefAssignedTo (user req))),
      (getAssignedTasks, QAnd (QEq RefAssignedTo (user req)) (QNe RefCreatedBy (user req))),
      (getCreatedTasks, QEq RefCreatedBy (user req))]"

text \<open>
  A listing \<open>H\<close> lists exactly the tasks with the property \<open>P\<close>: whenever it
  answers, its total is the number of tasks with \<open>P\<close> and every task of its page is a
  task of the collection with \<open>P\<close>; and, for a page size of at least one, every task
  of the collection with \<open>P\<close> is on one of its pages.
\<close>

definition listsExactly ::
  "(env \<Rightarrow> request \<Rightarrow> task list \<Rightarrow> error + list_response) \<Rightarrow> (task \<Rightarrow> bool)
     \<Rightarrow> env \<Rightarrow> request \<Rightarrow> task list \<Rightarrow> bool" where
  "listsExactly H P e req ts =
     ((\<forall>r. H e req ts = Inr r \<longrightarrow>
          total r = length (filter P ts) \<and> set (map doc (data r)) \<subseteq> {t \<in> set ts. P t})
      \<and> (1 \<le> parseIntOr (query_limit req) 3 \<longrightarrow>
          (\<forall>t \<in> set ts. P t \<longrightarrow> (\<exists>k\<ge>1. t \<in> set (dataOf (H e (onPage req k) ts))))))"

section \<open>Example data\<close>

text \<open>
  An environment, three users and a collection to evaluate the handlers on. The clock
  reads 2025-01-15 14:06:40 UTC and the server is five hours west of UTC. The schema
  of the example takes texts for title and description, a time value for dueDate, one
  of low, medium, high for priority and one of pending, completed for status; an
  ObjectId is any text that is not empty; a Date is made from a number.
\<close>

definition exCast :: "field \<Rightarrow> jsval \<Rightarrow> jsval option" where
  "exCast f v =
     (case f of
        Title \<Rightarrow> (case v of JStr s \<Rightarrow> Some (JStr s) | _ \<Rightarrow> None)
      | Description \<Rightarrow> (case v of JStr s \<Rightarrow> Some (JStr s) | _ \<Rightarrow> None)
      | DueDate \<Rightarrow> (case v of JNum n \<Rightarrow> Some (JDate n) | JDate t \<Rightarrow> Some (JDate t) | _ \<Rightarrow> None)
      | Priority \<Rightarrow> (if v \<in> set [JStr ''low'', JStr ''medium'', JStr ''high''] then Some v else None)
      | Status \<Rightarrow> (if v \<in> set [JStr ''pending'', JStr ''completed''] then Some v else None)
      | AssignedTo \<Rightarrow> None)"

definition exUsers :: "oid \<Rightarrow> user_summary option" where
  "exUsers i =
     (if i \<in> set [''u1'', ''u2'', ''u3'']
      then Some \<lparr>name = i, email = i @ ''@example.org''\<rparr> else None)"

definition exEnv :: env where
  "exEnv =
     \<lparr>now = 1736950000000, tzOffset = - 18000000,
      newDate = (\<lambda>v. case v of JNum n \<Rightarrow> Some n | JDate t \<Rightarrow> Some t | _ \<Rightarrow> None),
      castPath = exCast,
      castObjectId = (\<lambda>v. case v of JStr s \<Rightarrow> (if s = [] then None else Some s) | _ \<Rightarrow> None),
      users = exUsers, newId = ''t9''\<rparr>"

definition exTask :: "oid \<Rightarrow> oid \<Rightarrow> oid \<Rightarrow> int \<Rightarrow> task" where
  "exTask i creator_id assignee_id c =
     \<lparr>task_id = i, title = JStr ''Fix bug'', description = JStr ''It crashes'',
      dueDate = JDate 1737000000000, priority = JStr ''high'', status = JStr ''pending'',
      assignedTo = assignee_id, createdBy = creator_id, createdAt = c\<rparr>"

definition exStore :: "task list" where
  "exStore =
     [exTask ''t1'' ''u1'' ''u2'' 100, exTask ''t2'' ''u1'' ''u1'' 200,
      exTask ''t3'' ''u2'' ''u1'' 300, exTask ''t4'' ''u2'' ''u3'' 400,
      exTask ''t5'' ''u1'' ''u3'' 500]"

definition exDone :: task where
  "exDone = (exTask ''t1'' ''u1'' ''u2'' 100)\<lparr>status := JStr ''completed''\<rparr>"

definition exReq :: "oid \<Rightarrow> string \<Rightarrow> (field \<times> jsval) list \<Rightarrow> request" where
  "exReq u i kvs =
     \<lparr>user = u, params_id = i,
      body = (\<lambda>f. case map_of kvs f of None \<Rightarrow> JUndefined | Some v \<Rightarrow> v),
      query_page = None, query_limit = None\<rparr>"

text \<open>The creation of section 8 of the specification: user u1 creates a task for user
  u2 that is due at the time \<open>d\<close>.\<close>

definition exNew :: "int \<Rightarrow> request" where
  "exNew d =
     exReq ''u1'' []
       [(Title, JStr ''Fix bug''), (Description, JStr ''It crashes''), (DueDate, JNum d),
        (Priority, JStr ''high''), (AssignedTo, JStr ''u2'')]"

text \<open>A listing request of user \<open>u\<close> with the two query parameters.\<close>

definition exList :: "oid \<Rightarrow> string option \<Rightarrow> string option \<Rightarrow> request" where
  "exList u pg lm = (exReq u [] [])\<lparr>query_page := pg, query_limit := lm\<rparr>"

section \<open>Lookup, replacement and deletion\<close>

lemma findById_Nil [simp]: "findById i [] = None"
  by (simp add: findById_def)

lemma findById_Cons [simp]:
  "findById i (t # ts) = (if task_id t = i then Some t else findById i ts)"
  by (simp add: findById_def)

lemma findById_SomeD: "findById i ts = Some t \<Longrightarrow> task_id t = i \<and> t \<in> set ts"
  by (induction ts) (auto split: if_splits)

lemma findById_None_iff: "findById i ts = None \<longleftrightarrow> i \<notin> set (map task_id ts)"
  by (induction ts) auto

lemma findById_replaceFirst:
  "task_id t' = i \<Longrightarrow>
   findById j (replaceFirst i t' ts) =
     (if j = i then map_option (\<lambda>_. t') (findById i ts) else findById j ts)"
  by (induction ts) auto

lemma task_ids_replaceFirst:
  "task_id t' = i \<Longrightarrow> map task_id (replaceFirst i t' ts) = map task_id ts"
  by (induction ts) auto

lemma findById_deleteFirst_other: "j \<noteq> i \<Longrightarrow> findById j (deleteFirst i ts) = findById j ts"
  by (induction ts) auto

text \<open>The ids of a collection are unique (the index on \<^verbatim>\<open>_id\<close>); then deleting the
  first document with an id leaves none with it.\<close>

lemma findById_deleteFirst_same:
  "distinct (map task_id ts) \<Longrightarrow> findById i (deleteFirst i ts) = None"
  by (induction ts) (auto simp: findById_None_iff)

lemma task_ids_deleteFirst: "set (map task_id (deleteFirst i ts)) \<subseteq> set (map task_id ts)"
  by (induction ts) auto

lemma distinct_deleteFirst:
  "distinct (map task_id ts) \<Longrightarrow> distinct (map task_id (deleteFirst i ts))"
proof (induction ts)
  case Nil
  then show ?case by simp
next
  case (Cons t ts)
  with task_ids_deleteFirst [of i ts] show ?case by auto
qed

section \<open>The due date check compares days\<close>

lemma dateLess_setHours0:
  "dateLess (setHours0 tz (Some a)) (setHours0 tz (Some b)) \<longleftrightarrow> localDay tz a < localDay tz b"
  by (simp add: setHours0_def msPerDay_def)

lemma dateLess_taskDueDate: "dateLess (taskDueDate e v) (today e) = pastDue e v"
proof (cases "newDate e v")
  case None
  then show ?thesis by (simp add: taskDueDate_def pastDue_def setHours0_def)
next
  case (Some d)
  then show ?thesis by (simp add: taskDueDate_def today_def pastDue_def dateLess_setHours0)
qed

section \<open>Updates\<close>

lemma setPath_pathOk: "pathOk e f v \<Longrightarrow> setPath e f v t \<noteq> None"
  by (cases f) auto

lemma applyUpdate_valid: "validUpdate e upd \<Longrightarrow> applyUpdate e upd t \<noteq> None"
proof (induction upd arbitrary: t)
  case Nil
  then show ?case by simp
next
  case (Cons fv upd)
  obtain f v where fv: "fv = (f, v)" by (cases fv)
  show ?case
  proof (cases "v = JUndefined")
    case True
    with Cons fv show ?thesis by (simp add: validUpdate_def)
  next
    case False
    with Cons.prems fv have "pathOk e f v" and rest: "validUpdate e upd"
      by (simp_all add: validUpdate_def)
    then obtain t' where "setPath e f v t = Some t'"
      using setPath_pathOk [of e f v t] by auto
    with False fv Cons.IH [OF rest, of t'] show ?thesis by simp
  qed
qed

lemma applyUpdate_updateOf:
  assumes "applyUpdate e (updateOf req) t = Some t'"
  shows "written e Title (body req Title) (title t) (title t')
       \<and> written e Description (body req Description) (description t) (description t')
       \<and> written e DueDate (body req DueDate) (dueDate t) (dueDate t')
       \<and> written e Priority (body req Priority) (priority t) (priority t')
       \<and> written e Status (body req Status) (status t) (status t')
       \<and> task_id t' = task_id t \<and> assignedTo t' = assignedTo t
       \<and> createdBy t' = createdBy t \<and> createdAt t' = createdAt t"
  using assms
  by (auto simp: updateOf_def written_def split: if_splits option.splits)

section \<open>The ids of the collection stay unique\<close>

text \<open>No handler makes two documents share an id: a creation adds a document with a new
  id, an update replaces a document by one with the same id, a delete removes one.\<close>

lemma applyUpdate_task_id: "applyUpdate e upd t = Some t' \<Longrightarrow> task_id t' = task_id t"
proof (induction upd arbitrary: t)
  case Nil
  then show ?case by simp
next
  case (Cons fv upd)
  obtain f v where fv: "fv = (f, v)" by (cases fv)
  have s: "task_id t'' = task_id t" if "setPath e f v t = Some t''" for t''
    using that by (cases f) auto
  from Cons.prems fv show ?case
    by (auto split: if_splits option.splits dest!: Cons.IH s)
qed

lemma distinct_ids_preserved:
  assumes "distinct (map task_id ts)"
  shows "distinct (map task_id (snd (createTask e req ts)))"
    and "distinct (map task_id (snd (updateTask e req ts)))"
    and "distinct (map task_id (snd (deleteTask e req ts)))"
    and "distinct (map task_id (snd (updateTaskStatus e req ts)))"
proof -
  show "distinct (map task_id (snd (createTask e req ts)))"
    using assms
    by (auto simp: createTask_def Task_create_def Let_def split: option.splits)
  show "distinct (map task_id (snd (deleteTask e req ts)))"
    using assms
    by (auto simp: deleteTask_def findByIdAndDelete_def distinct_deleteFirst split: option.splits)
  show "distinct (map task_id (snd (updateTask e req ts)))"
  proof (cases "\<exists>r ts'. updateTask e req ts = (Inr r, ts')")
    case True
    then obtain i t t' where "findById i ts = Some t" "applyUpdate e (updateOf req) t = Some t'"
      and ts': "snd (updateTask e req ts) = replaceFirst i t' ts"
      by (auto simp: updateTask_def findByIdAndUpdate_def Let_def split: if_splits option.splits)
    then have "task_id t' = i"
      using applyUpdate_task_id findById_SomeD by metis
    with assms ts' show ?thesis by (simp add: task_ids_replaceFirst)
  next
    case False
    with assms show ?thesis
      by (auto simp: updateTask_def findByIdAndUpdate_def Let_def split: if_splits option.splits)
  qed
  show "distinct (map task_id (snd (updateTaskStatus e req ts)))"
    using assms
    by (auto simp: updateTaskStatus_def save_status_def Let_def task_ids_replaceFirst
        split: if_splits option.splits)
qed

section \<open>The example, evaluated\<close>

lemma ex_id: "castObjectId exEnv (JStr (params_id (exReq u i kvs))) = (if i = [] then None else Some i)"
  by (simp add: exEnv_def exReq_def)

lemma ex_user: "user (exReq u i kvs) = u"
  by (simp add: exReq_def)

lemma ex_body: "body (exReq u i kvs) f = (case map_of kvs f of None \<Rightarrow> JUndefined | Some v \<Rightarrow> v)"
  by (simp add: exReq_def)

lemma ex_t1: "findById ''t1'' exStore = Some (exTask ''t1'' ''u1'' ''u2'' 100)"
  by (simp add: exStore_def exTask_def)

lemma ex_t404: "findById ''t404'' exStore = None"
  by (simp add: exStore_def exTask_def)

lemma ex_distinct: "distinct (map task_id exStore)"
  by (simp add: exStore_def exTask_def)

lemma ex_resolves: "resolves exEnv (exTask ''t1'' ''u1'' ''u2'' 100)"
  by (simp add: resolves_def exEnv_def exTask_def exUsers_def)

lemma ex_new_required: "d \<noteq> 0 \<Longrightarrow> required (exNew d)"
  by (simp add: required_def exNew_def ex_body)

lemma ex_new_accepts: "accepts exEnv (exNew d) exStore"
  by (simp add: accepts_def exNew_def ex_body exEnv_def exCast_def exStore_def exTask_def)

lemma ex_due: "newDate exEnv (body (exNew d) DueDate) = Some d"
  by (simp add: exNew_def ex_body exEnv_def)

lemma ex_clock: "tzOffset exEnv = - 18000000" "now exEnv = 1736950000000"
  by (simp_all add: exEnv_def)

lemma ex_days:
  "localDay (- 18000000) 1736950000000 = 20103"
  "localDay (- 18000000) 1736921200000 = 20103"
  "localDay (- 18000000) 1736863600000 = 20102"
  by (simp_all add: localDay_def msPerDay_def)

lemma ex_pastDue:
  "\<not> pastDue exEnv (body (exNew 1736950000000) DueDate)"
  "\<not> pastDue exEnv (body (exNew 1736921200000) DueDate)"
  "pastDue exEnv (body (exNew 1736863600000) DueDate)"
  by (simp_all add: pastDue_def ex_due ex_clock ex_days)

lemma ex_status:
  "updateTaskStatus exEnv (exReq ''u2'' ''t1'' [(Status, JStr ''completed'')]) exStore =
     (Inr (populate exEnv exDone), replaceFirst ''t1'' exDone exStore)"
  by (simp add: updateTaskStatus_def save_status_def Let_def exDone_def
      exEnv_def exReq_def exStore_def exTask_def exCast_def)

lemma ex_update:
  "updateTask exEnv (exReq ''u1'' ''t1'' [(Status, JStr ''completed'')]) exStore =
     (Inr (Some (populate exEnv exDone)), replaceFirst ''t1'' exDone exStore)"
  by (simp add: updateTask_def findByIdAndUpdate_def validUpdate_def updateOf_def Let_def
      exDone_def exEnv_def exReq_def exStore_def exTask_def exCast_def)

section \<open>Validation comes first in updateTaskStatus\<close>

text \<open>
  Claim C10. In \<open>updateTaskStatus\<close> the check of the status value runs before the
  lookup: for every request whose status is missing or is not exactly one of pending and
  completed, the response is the invalid-input failure, whatever the collection holds
  (also when no task has the id, and also when the id is no ObjectId at all), and the
  collection is returned as it was.
\<close>

theorem updateTaskStatus_validates_first:
  assumes "body req Status \<notin> {JStr ''pending'', JStr ''completed''}"
  shows "updateTaskStatus e req ts =
           (Inl (InvalidInput ''Please provide a valid status (pending or completed)''), ts)"
  using assms by (simp add: updateTaskStatus_def Let_def)

theorem updateTaskStatus_validates_first_witness:
  "body (exReq ''u1'' ''t404'' [(Status, JStr ''done'')]) Status
     \<notin> {JStr ''pending'', JStr ''completed''}
   \<and> findById ''t404'' exStore = None
   \<and> updateTaskStatus exEnv (exReq ''u1'' ''t404'' [(Status, JStr ''done'')]) exStore =
       (Inl (InvalidInput ''Please provide a valid status (pending or completed)''), exStore)"
proof -
  have h: "body (exReq ''u1'' ''t404'' [(Status, JStr ''done'')]) Status
             \<notin> {JStr ''pending'', JStr ''completed''}"
    by (simp add: exReq_def)
  have n: "findById ''t404'' exStore = None"
    by (simp add: exStore_def exTask_def)
  from updateTaskStatus_validates_first [OF h] h n show ?thesis by blast
qed

section \<open>Only the creator deletes\<close>

text \<open>
  Claim C2. For \<open>deleteTask\<close> on a task that exists: a requester who is not its
  creator (so also its assignee, when somebody else created it) gets the forbidden
  failure and the collection is unchanged; for its creator the delete succeeds, and
  afterwards \<open>getTaskById\<close> with the same id answers not found, whoever asks.
\<close>

theorem deleteTask_only_creator:
  assumes "castObjectId e (JStr (params_id req)) = Some i"
    and "findById i ts = Some t"
  shows "(createdBy t \<noteq> user req \<longrightarrow>
            deleteTask e req ts =
              (Inl (Forbidden ''Only the task creator can delete this task''), ts))
       \<and> (createdBy t = user req \<longrightarrow>
            fst (deleteTask e req ts) = Inr ()
            \<and> (distinct (map task_id ts) \<longrightarrow>
                 (\<forall>req'. params_id req' = params_id req \<longrightarrow>
                    getTaskById e req' (snd (deleteTask e req ts)) =
                      Inl (NotFound ''Task not found''))))"
  using assms
  by (auto simp: deleteTask_def getTaskById_def findByIdAndDelete_def findById_deleteFirst_same)

theorem deleteTask_only_creator_witness:
  "castObjectId exEnv (JStr (params_id (exReq ''u2'' ''t1'' []))) = Some ''t1''
   \<and> findById ''t1'' exStore = Some (exTask ''t1'' ''u1'' ''u2'' 100)
   \<and> distinct (map task_id exStore)
   \<and> fst (deleteTask exEnv (exReq ''u2'' ''t1'' []) exStore) =
        Inl (Forbidden ''Only the task creator can delete this task'')
   \<and> fst (deleteTask exEnv (exReq ''u1'' ''t1'' []) exStore) = Inr ()
   \<and> getTaskById exEnv (exReq ''u2'' ''t1'' [])
        (snd (deleteTask exEnv (exReq ''u1'' ''t1'' []) exStore)) =
        Inl (NotFound ''Task not found'')"
proof -
  have i: "castObjectId exEnv (JStr (params_id (exReq u ''t1'' []))) = Some ''t1''" for u
    by (simp add: exEnv_def exReq_def)
  have f: "findById ''t1'' exStore = Some (exTask ''t1'' ''u1'' ''u2'' 100)"
    by (simp add: exStore_def exTask_def)
  have d: "distinct (map task_id exStore)"
    by (simp add: exStore_def exTask_def)
  have u2: "createdBy (exTask ''t1'' ''u1'' ''u2'' 100) \<noteq> user (exReq ''u2'' ''t1'' [])"
    and u1: "createdBy (exTask ''t1'' ''u1'' ''u2'' 100) = user (exReq ''u1'' ''t1'' [])"
    and p: "params_id (exReq ''u2'' ''t1'' []) = params_id (exReq ''u1'' ''t1'' [])"
    by (simp_all add: exTask_def exReq_def)
  from deleteTask_only_creator [OF i f, of "''u2''"] u2
  have a: "fst (deleteTask exEnv (exReq ''u2'' ''t1'' []) exStore) =
        Inl (Forbidden ''Only the task creator can delete this task'')"
    by simp
  from deleteTask_only_creator [OF i f, of "''u1''"] u1 d p
  have b: "fst (deleteTask exEnv (exReq ''u1'' ''t1'' []) exStore) = Inr ()"
    and c: "getTaskById exEnv (exReq ''u2'' ''t1'' [])
        (snd (deleteTask exEnv (exReq ''u1'' ''t1'' []) exStore)) =
        Inl (NotFound ''Task not found'')"
    by blast+
  from i f d a b c show ?thesis by blast
qed

section \<open>The status update writes the status and nothing else\<close>

text \<open>
  Claim C8. A successful \<open>updateTaskStatus\<close> changes exactly the status of the task
  with the given id: the task afterwards is the task before with the status of the
  request (as the schema casts it), every other field holds the value it had, and every
  other task of the collection is as it was.
\<close>

theorem updateTaskStatus_changes_status_only:
  assumes "updateTaskStatus e req ts = (Inr p, ts')"
  shows "\<exists>i t v. castObjectId e (JStr (params_id req)) = Some i
           \<and> findById i ts = Some t
           \<and> castPath e Status (body req Status) = Some v
           \<and> doc p = t\<lparr>status := v\<rparr>
           \<and> (\<forall>j. findById j ts' = (if j = i then Some (t\<lparr>status := v\<rparr>) else findById j ts))
           \<and> map task_id ts' = map task_id ts
           \<and> task_id (doc p) = task_id t \<and> title (doc p) = title t
           \<and> description (doc p) = description t \<and> dueDate (doc p) = dueDate t
           \<and> priority (doc p) = priority t \<and> assignedTo (doc p) = assignedTo t
           \<and> createdBy (doc p) = createdBy t \<and> createdAt (doc p) = createdAt t"
proof -
  from assms obtain i t t' where
    i: "castObjectId e (JStr (params_id req)) = Some i"
    and t: "findById i ts = Some t"
    and s: "setPath e Status (body req Status) t = Some t'"
    and p: "p = populate e t'"
    and ts': "ts' = replaceFirst (task_id t) t' ts"
    by (auto simp: updateTaskStatus_def save_status_def Let_def
        split: if_splits option.splits)
  from s obtain v where v: "castPath e Status (body req Status) = Some v"
    and t': "t' = t\<lparr>status := v\<rparr>"
    by auto
  from t have id: "task_id t = i" by (simp add: findById_SomeD)
  have "findById j ts' = (if j = i then Some (t\<lparr>status := v\<rparr>) else findById j ts)" for j
    using findById_replaceFirst [of t' i j ts] t by (simp add: ts' t' id)
  moreover have "map task_id ts' = map task_id ts"
    using task_ids_replaceFirst [of t' i ts] by (simp add: ts' t' id)
  ultimately show ?thesis
    using i t v by (simp add: p t' populate_def)
qed

theorem updateTaskStatus_changes_status_only_witness:
  "updateTaskStatus exEnv (exReq ''u2'' ''t1'' [(Status, JStr ''completed'')]) exStore =
     (Inr (populate exEnv exDone), replaceFirst ''t1'' exDone exStore)
   \<and> findById ''t1'' exStore = Some (exTask ''t1'' ''u1'' ''u2'' 100)
   \<and> status (exTask ''t1'' ''u1'' ''u2'' 100) = JStr ''pending''
   \<and> status (doc (populate exEnv exDone)) = JStr ''completed''
   \<and> title (doc (populate exEnv exDone)) = title (exTask ''t1'' ''u1'' ''u2'' 100)
   \<and> createdBy (doc (populate exEnv exDone)) = createdBy (exTask ''t1'' ''u1'' ''u2'' 100)
   \<and> findById ''t2'' (replaceFirst ''t1'' exDone exStore) = findById ''t2'' exStore"
proof -
  from updateTaskStatus_changes_status_only [OF ex_status]
  obtain i t v where
    i: "castObjectId exEnv (JStr (params_id (exReq ''u2'' ''t1'' [(Status, JStr ''completed'')]))) = Some i"
    and t: "findById i exStore = Some t"
    and f: "\<forall>j. findById j (replaceFirst ''t1'' exDone exStore) =
              (if j = i then Some (t\<lparr>status := v\<rparr>) else findById j exStore)"
    and k: "title (doc (populate exEnv exDone)) = title t"
       "createdBy (doc (populate exEnv exDone)) = createdBy t"
    by blast
  from i have i1: "i = ''t1''" by (simp add: ex_id)
  with t have t1: "t = exTask ''t1'' ''u1'' ''u2'' 100" by (simp add: ex_t1)
  from f i1 have "findById ''t2'' (replaceFirst ''t1'' exDone exStore) = findById ''t2'' exStore"
    by simp
  moreover have "status (exTask ''t1'' ''u1'' ''u2'' 100) = JStr ''pending''"
    and "status (doc (populate exEnv exDone)) = JStr ''completed''"
    by (simp_all add: exTask_def exDone_def populate_def)
  ultimately show ?thesis using k t1 ex_status ex_t1 by simp
qed

section \<open>A created task belongs to the requester and is pending\<close>

text \<open>
  Claim C9. For every creation request whose five fields are present and not empty and
  whose due date is not in the past, the task that \<open>createTask\<close> creates has
  createdBy equal to the id of the requester and the status pending, and it is the task
  added to the collection. The creation takes place when the schema accepts the fields;
  when it does not, nothing is created.
\<close>

theorem createTask_creator_and_pending:
  assumes "required req"
    and "\<not> pastDue e (body req DueDate)"
  shows "(accepts e req ts \<longrightarrow>
            (\<exists>p. createTask e req ts = (Inr p, ts @ [doc p])
                 \<and> createdBy (doc p) = user req \<and> status (doc p) = JStr ''pending''))
       \<and> (\<not> accepts e req ts \<longrightarrow> createTask e req ts = (Inl StoreFailure, ts))
       \<and> (\<forall>p ts'. createTask e req ts = (Inr p, ts') \<longrightarrow>
            createdBy (doc p) = user req \<and> status (doc p) = JStr ''pending''
            \<and> ts' = ts @ [doc p])"
  using assms
  by (auto simp: createTask_def Task_create_def required_def accepts_def Let_def populate_def
      dateLess_taskDueDate split: option.splits)

theorem createTask_creator_and_pending_witness:
  "required (exNew 1736950000000)
   \<and> \<not> pastDue exEnv (body (exNew 1736950000000) DueDate)
   \<and> accepts exEnv (exNew 1736950000000) exStore
   \<and> (\<exists>p. createTask exEnv (exNew 1736950000000) exStore = (Inr p, exStore @ [doc p])
          \<and> createdBy (doc p) = ''u1'' \<and> status (doc p) = JStr ''pending'')"
proof -
  have d: "\<not> pastDue exEnv (body (exNew 1736950000000) DueDate)"
    by (rule ex_pastDue)
  have r: "required (exNew 1736950000000)"
    by (simp add: ex_new_required)
  have u: "user (exNew 1736950000000) = ''u1''"
    by (simp add: exNew_def ex_user)
  from createTask_creator_and_pending [OF r d, of exStore] ex_new_accepts
  have "\<exists>p. createTask exEnv (exNew 1736950000000) exStore = (Inr p, exStore @ [doc p])
          \<and> createdBy (doc p) = user (exNew 1736950000000) \<and> status (doc p) = JStr ''pending''"
    by blast
  with r d ex_new_accepts u show ?thesis by simp
qed

section \<open>Existence is checked before authorization\<close>

text \<open>
  Claim C1, as the code has it. For a request whose id is an ObjectId:
  \<^item> when no task has the id, \<open>getTaskById\<close> and \<open>updateTask\<close> answer not found,
    and so does \<open>updateTaskStatus\<close> for a request whose status is pending or
    completed (for any other status its validation answers first, see C10);
  \<^item> when the task exists and the requester is neither its creator nor its assignee,
    the three answer forbidden (\<open>updateTaskStatus\<close> again for a valid status,
    \<open>getTaskById\<close> when the creator and the assignee of the task exist);
  \<^item> when the task exists and the requester is its creator or its assignee,
    \<open>getTaskById\<close> returns the task, \<open>updateTask\<close> succeeds when the due date
    check passes and the schema accepts the update, and \<open>updateTaskStatus\<close>
    succeeds when the status is valid and the schema accepts it;
  \<^item> none of the three succeeds unless the task exists and the requester is its
    creator or its assignee.
\<close>

theorem existence_before_authorization:
  assumes "castObjectId e (JStr (params_id req)) = Some i"
  shows "(findById i ts = None \<longrightarrow>
            getTaskById e req ts = Inl (NotFound ''Task not found'')
          \<and> updateTask e req ts = (Inl (NotFound ''Task not found''), ts)
          \<and> (validStatus req \<longrightarrow>
               updateTaskStatus e req ts = (Inl (NotFound ''Task not found''), ts)))
       \<and> (\<forall>t. findById i ts = Some t \<and> \<not> participant (user req) t \<longrightarrow>
            (resolves e t \<longrightarrow>
               getTaskById e req ts = Inl (Forbidden ''You are not authorized to view this task''))
          \<and> updateTask e req ts =
               (Inl (Forbidden ''You are not authorized to update this task''), ts)
          \<and> (validStatus req \<longrightarrow>
               updateTaskStatus e req ts =
                 (Inl (Forbidden ''You are not authorized to update this task''), ts)))
       \<and> (\<forall>t. findById i ts = Some t \<and> participant (user req) t \<longrightarrow>
            (resolves e t \<longrightarrow> getTaskById e req ts = Inr (populate e t))
          \<and> (\<not> (truthy (body req DueDate) \<and> pastDue e (body req DueDate))
               \<and> validUpdate e (updateOf req) \<longrightarrow>
               \<not> isl (fst (updateTask e req ts)))
          \<and> (validStatus req \<and> castPath e Status (body req Status) \<noteq> None \<longrightarrow>
               \<not> isl (fst (updateTaskStatus e req ts))))
       \<and> (\<not> isl (getTaskById e req ts) \<or> \<not> isl (fst (updateTask e req ts))
            \<or> \<not> isl (fst (updateTaskStatus e req ts)) \<longrightarrow>
            (\<exists>t. findById i ts = Some t \<and> participant (user req) t))"
proof (intro conjI allI impI)
  show "getTaskById e req ts = Inl (NotFound ''Task not found'')" if "findById i ts = None"
    using assms that by (simp add: getTaskById_def)
  show "updateTask e req ts = (Inl (NotFound ''Task not found''), ts)" if "findById i ts = None"
    using assms that by (simp add: updateTask_def)
  show "updateTaskStatus e req ts = (Inl (NotFound ''Task not found''), ts)"
    if "findById i ts = None" "validStatus req"
    using assms that by (auto simp: updateTaskStatus_def validStatus_def)
next
  fix t
  assume a: "findById i ts = Some t \<and> \<not> participant (user req) t"
  show "getTaskById e req ts = Inl (Forbidden ''You are not authorized to view this task'')"
    if "resolves e t"
    using assms a that
    by (auto simp: getTaskById_def resolves_def participant_def populate_def Let_def)
  show "updateTask e req ts = (Inl (Forbidden ''You are not authorized to update this task''), ts)"
    using assms a by (auto simp: updateTask_def participant_def)
  show "updateTaskStatus e req ts =
          (Inl (Forbidden ''You are not authorized to update this task''), ts)"
    if "validStatus req"
    using assms a that by (auto simp: updateTaskStatus_def validStatus_def participant_def)
next
  fix t
  assume a: "findById i ts = Some t \<and> participant (user req) t"
  show "getTaskById e req ts = Inr (populate e t)" if "resolves e t"
    using assms a that
    by (auto simp: getTaskById_def resolves_def participant_def populate_def Let_def)
  show "\<not> isl (fst (updateTask e req ts))"
    if "\<not> (truthy (body req DueDate) \<and> pastDue e (body req DueDate))
        \<and> validUpdate e (updateOf req)"
  proof -
    from that obtain t' where "applyUpdate e (updateOf req) t = Some t'"
      using applyUpdate_valid [of e "updateOf req" t] by auto
    with assms a that show ?thesis
      by (auto simp: updateTask_def participant_def findByIdAndUpdate_def dateLess_taskDueDate)
  qed
  show "\<not> isl (fst (updateTaskStatus e req ts))"
    if "validStatus req \<and> castPath e Status (body req Status) \<noteq> None"
    using assms a that
    by (auto simp: updateTaskStatus_def validStatus_def participant_def save_status_def)
next
  assume "\<not> isl (getTaskById e req ts) \<or> \<not> isl (fst (updateTask e req ts))
            \<or> \<not> isl (fst (updateTaskStatus e req ts))"
  then consider (get) "\<not> isl (getTaskById e req ts)"
    | (upd) "\<not> isl (fst (updateTask e req ts))"
    | (st) "\<not> isl (fst (updateTaskStatus e req ts))"
    by blast
  then show "\<exists>t. findById i ts = Some t \<and> participant (user req) t"
  proof cases
    case get
    with assms show ?thesis
      by (auto simp: getTaskById_def participant_def Let_def split: option.splits if_splits)
  next
    case upd
    with assms show ?thesis
      by (auto simp: updateTask_def participant_def Let_def split: option.splits if_splits)
  next
    case st
    with assms show ?thesis
      by (auto simp: updateTaskStatus_def participant_def Let_def split: option.splits if_splits)
  qed
qed

text \<open>The example: nobody finds the task t404; user u3 is refused the task t1 of users
  u1 and u2; user u2, its assignee, reads it and sets its status.\<close>

theorem existence_before_authorization_witness:
  "castObjectId exEnv (JStr (params_id (exReq ''u1'' ''t404'' [(Status, JStr ''completed'')]))) =
     Some ''t404''
   \<and> findById ''t404'' exStore = None
   \<and> getTaskById exEnv (exReq ''u1'' ''t404'' [(Status, JStr ''completed'')]) exStore =
        Inl (NotFound ''Task not found'')
   \<and> fst (updateTask exEnv (exReq ''u1'' ''t404'' [(Status, JStr ''completed'')]) exStore) =
        Inl (NotFound ''Task not found'')
   \<and> fst (updateTaskStatus exEnv (exReq ''u1'' ''t404'' [(Status, JStr ''completed'')]) exStore) =
        Inl (NotFound ''Task not found'')
   \<and> castObjectId exEnv (JStr (params_id (exReq ''u3'' ''t1'' [(Status, JStr ''completed'')]))) =
        Some ''t1''
   \<and> findById ''t1'' exStore = Some (exTask ''t1'' ''u1'' ''u2'' 100)
   \<and> \<not> participant ''u3'' (exTask ''t1'' ''u1'' ''u2'' 100)
   \<and> participant ''u2'' (exTask ''t1'' ''u1'' ''u2'' 100)
   \<and> getTaskById exEnv (exReq ''u3'' ''t1'' [(Status, JStr ''completed'')]) exStore =
        Inl (Forbidden ''You are not authorized to view this task'')
   \<and> fst (updateTask exEnv (exReq ''u3'' ''t1'' [(Status, JStr ''completed'')]) exStore) =
        Inl (Forbidden ''You are not authorized to update this task'')
   \<and> fst (updateTaskStatus exEnv (exReq ''u3'' ''t1'' [(Status, JStr ''completed'')]) exStore) =
        Inl (Forbidden ''You are not authorized to update this task'')
   \<and> getTaskById exEnv (exReq ''u2'' ''t1'' [(Status, JStr ''completed'')]) exStore =
        Inr (populate exEnv (exTask ''t1'' ''u1'' ''u2'' 100))
   \<and> \<not> isl (fst (updateTask exEnv (exReq ''u2'' ''t1'' [(Status, JStr ''completed'')]) exStore))
   \<and> \<not> isl (fst (updateTaskStatus exEnv (exReq ''u2'' ''t1'' [(Status, JStr ''completed'')]) exStore))"
proof -
  let ?kv = "[(Status, JStr ''completed'')]"
  have i404: "castObjectId exEnv (JStr (params_id (exReq ''u1'' ''t404'' ?kv))) = Some ''t404''"
    by (simp add: ex_id)
  have i1: "castObjectId exEnv (JStr (params_id (exReq u ''t1'' ?kv))) = Some ''t1''" for u
    by (simp add: ex_id)
  have p3: "\<not> participant (user (exReq ''u3'' ''t1'' ?kv)) (exTask ''t1'' ''u1'' ''u2'' 100)"
    and p2: "participant (user (exReq ''u2'' ''t1'' ?kv)) (exTask ''t1'' ''u1'' ''u2'' 100)"
    by (simp_all add: participant_def ex_user exTask_def)
  have v: "validStatus (exReq u i ?kv)" for u i
    by (simp add: validStatus_def ex_body)
  have c: "castPath exEnv Status (body (exReq u ''t1'' ?kv) Status) \<noteq> None" for u
    by (simp add: ex_body exEnv_def exCast_def)
  have d: "\<not> (truthy (body (exReq u ''t1'' ?kv) DueDate)
              \<and> pastDue exEnv (body (exReq u ''t1'' ?kv) DueDate))" for u
    by (simp add: ex_body)
  have w: "validUpdate exEnv (updateOf (exReq u ''t1'' ?kv))" for u
    by (simp add: validUpdate_def updateOf_def ex_body exEnv_def exCast_def)
  from existence_before_authorization [OF i404, of exStore] ex_t404 v
  have a: "getTaskById exEnv (exReq ''u1'' ''t404'' ?kv) exStore = Inl (NotFound ''Task not found'')"
    "updateTask exEnv (exReq ''u1'' ''t404'' ?kv) exStore =
        (Inl (NotFound ''Task not found''), exStore)"
    "updateTaskStatus exEnv (exReq ''u1'' ''t404'' ?kv) exStore =
        (Inl (NotFound ''Task not found''), exStore)"
    by blast+
  from existence_before_authorization [OF i1, of exStore "''u3''"] ex_t1 p3 ex_resolves v
  have b: "getTaskById exEnv (exReq ''u3'' ''t1'' ?kv) exStore =
        Inl (Forbidden ''You are not authorized to view this task'')"
    "updateTask exEnv (exReq ''u3'' ''t1'' ?kv) exStore =
        (Inl (Forbidden ''You are not authorized to update this task''), exStore)"
    "updateTaskStatus exEnv (exReq ''u3'' ''t1'' ?kv) exStore =
        (Inl (Forbidden ''You are not authorized to update this task''), exStore)"
    by blast+
  from existence_before_authorization [OF i1, of exStore "''u2''"] ex_t1 p2 ex_resolves v c d w
  have s: "getTaskById exEnv (exReq ''u2'' ''t1'' ?kv) exStore =
        Inr (populate exEnv (exTask ''t1'' ''u1'' ''u2'' 100))"
    "\<not> isl (fst (updateTask exEnv (exReq ''u2'' ''t1'' ?kv) exStore))"
    "\<not> isl (fst (updateTaskStatus exEnv (exReq ''u2'' ''t1'' ?kv) exStore))"
    by blast+
  from p3 p2 have p: "\<not> participant ''u3'' (exTask ''t1'' ''u1'' ''u2'' 100)"
    "participant ''u2'' (exTask ''t1'' ''u1'' ''u2'' 100)"
    by (simp_all add: ex_user)
  from i404 ex_t404 a i1 [of "''u3''"] ex_t1 p b s show ?thesis by simp
qed

text \<open>
  The claim as it was stated fails: for a request with no status, \<open>updateTaskStatus\<close>
  answers invalid input although no task has the id, and an update by the creator
  with a due date of the day before is refused although the requester is a participant.
\<close>

theorem existence_before_authorization_counterexample:
  "castObjectId exEnv (JStr (params_id (exReq ''u1'' ''t404'' []))) = Some ''t404''
   \<and> findById ''t404'' exStore = None
   \<and> fst (updateTaskStatus exEnv (exReq ''u1'' ''t404'' []) exStore) =
        Inl (InvalidInput ''Please provide a valid status (pending or completed)'')
   \<and> fst (updateTaskStatus exEnv (exReq ''u1'' ''t404'' []) exStore) \<noteq>
        Inl (NotFound ''Task not found'')
   \<and> findById ''t1'' exStore = Some (exTask ''t1'' ''u1'' ''u2'' 100)
   \<and> participant ''u1'' (exTask ''t1'' ''u1'' ''u2'' 100)
   \<and> fst (updateTask exEnv (exReq ''u1'' ''t1'' [(DueDate, JNum 1736863600000)]) exStore) =
        Inl (InvalidInput ''Due date cannot be in the past'')"
proof -
  have "fst (updateTaskStatus exEnv (exReq ''u1'' ''t404'' []) exStore) =
        Inl (InvalidInput ''Please provide a valid status (pending or completed)'')"
    by (simp add: updateTaskStatus_def ex_body)
  moreover have "participant ''u1'' (exTask ''t1'' ''u1'' ''u2'' 100)"
    by (simp add: participant_def exTask_def)
  moreover have "pastDue exEnv (JNum 1736863600000)"
    by (simp add: pastDue_def exEnv_def localDay_def msPerDay_def)
  then have "fst (updateTask exEnv (exReq ''u1'' ''t1'' [(DueDate, JNum 1736863600000)]) exStore) =
        Inl (InvalidInput ''Due date cannot be in the past'')"
    by (simp add: updateTask_def ex_id ex_t1 ex_user ex_body dateLess_taskDueDate exTask_def)
  ultimately show ?thesis
    by (simp add: ex_id ex_t404 ex_t1)
qed

section \<open>The due date check\<close>



section \<open>The general update writes what the payload sends\<close>

text \<open>
  Claim C7, as the code has it. A successful \<open>updateTask\<close> writes, of title,
  description, dueDate, priority and status, those that the payload sends, each with the
  value of the payload as the schema casts it; a field that the payload does not send
  reaches the update document as \<^verbatim>\<open>undefined\<close>, Mongoose drops it from the update,
  and the stored value stays. The id, createdBy, assignedTo and createdAt of the task are
  never changed, and no other task is.
\<close>

theorem updateTask_writes_what_is_sent:
  assumes "updateTask e req ts = (Inr r, ts')"
  shows "\<exists>i t t'. castObjectId e (JStr (params_id req)) = Some i
           \<and> findById i ts = Some t \<and> r = Some (populate e t')
           \<and> (\<forall>j. findById j ts' = (if j = i then Some t' else findById j ts))
           \<and> written e Title (body req Title) (title t) (title t')
           \<and> written e Description (body req Description) (description t) (description t')
           \<and> written e DueDate (body req DueDate) (dueDate t) (dueDate t')
           \<and> written e Priority (body req Priority) (priority t) (priority t')
           \<and> written e Status (body req Status) (status t) (status t')
           \<and> task_id t' = task_id t \<and> assignedTo t' = assignedTo t
           \<and> createdBy t' = createdBy t \<and> createdAt t' = createdAt t"
proof -
  from assms obtain i t t' where
    i: "castObjectId e (JStr (params_id req)) = Some i"
    and t: "findById i ts = Some t"
    and u: "applyUpdate e (updateOf req) t = Some t'"
    and r: "r = Some (populate e t')"
    and ts': "ts' = replaceFirst i t' ts"
    by (auto simp: updateTask_def findByIdAndUpdate_def Let_def
        split: if_splits option.splits)
  note w = applyUpdate_updateOf [OF u]
  from t have "task_id t = i" by (simp add: findById_SomeD)
  with w have id: "task_id t' = i" by simp
  have "findById j ts' = (if j = i then Some t' else findById j ts)" for j
    using findById_replaceFirst [OF id, of j ts] t by (simp add: ts')
  with i t r w show ?thesis by blast
qed

text \<open>The creator of the task t1 of the example sends a status and nothing else: the
  status is written, the title and the assignee stay.\<close>

theorem updateTask_writes_what_is_sent_witness:
  "updateTask exEnv (exReq ''u1'' ''t1'' [(Status, JStr ''completed'')]) exStore =
     (Inr (Some (populate exEnv exDone)), replaceFirst ''t1'' exDone exStore)
   \<and> (\<exists>t'. findById ''t1'' (replaceFirst ''t1'' exDone exStore) = Some t'
          \<and> status t' = JStr ''completed''
          \<and> title t' = title (exTask ''t1'' ''u1'' ''u2'' 100)
          \<and> assignedTo t' = ''u2'' \<and> createdBy t' = ''u1'')"
proof -
  let ?req = "exReq ''u1'' ''t1'' [(Status, JStr ''completed'')]"
  from updateTask_writes_what_is_sent [OF ex_update]
  obtain i t t' where
    i: "castObjectId exEnv (JStr (params_id ?req)) = Some i"
    and t: "findById i exStore = Some t"
    and f: "\<forall>j. findById j (replaceFirst ''t1'' exDone exStore) =
              (if j = i then Some t' else findById j exStore)"
    and w: "written exEnv Title (body ?req Title) (title t) (title t')"
       "written exEnv Status (body ?req Status) (status t) (status t')"
    and k: "assignedTo t' = assignedTo t" "createdBy t' = createdBy t"
    by blast
  from i have i1: "i = ''t1''" by (simp add: ex_id)
  with t have t1: "t = exTask ''t1'' ''u1'' ''u2'' 100" by (simp add: ex_t1)
  from f i1 have "findById ''t1'' (replaceFirst ''t1'' exDone exStore) = Some t'"
    by simp
  moreover from w have "title t' = title t" "status t' = JStr ''completed''"
    by (simp_all add: written_def ex_body exEnv_def exCast_def)
  moreover from k t1 have "assignedTo t' = ''u2''" "createdBy t' = ''u1''"
    by (simp_all add: exTask_def)
  ultimately show ?thesis using ex_update t1 by simp
qed

text \<open>
  The claim as it was stated fails: the payload of the example sends no title, and the
  update succeeds, yet the title of the stored task is the one it had, not
  \<^verbatim>\<open>undefined\<close>.
\<close>

theorem updateTask_overwrite_counterexample:
  "body (exReq ''u1'' ''t1'' [(Status, JStr ''completed'')]) Title = JUndefined
   \<and> map_option title (findById ''t1'' exStore) = Some (JStr ''Fix bug'')
   \<and> \<not> isl (fst (updateTask exEnv (exReq ''u1'' ''t1'' [(Status, JStr ''completed'')]) exStore))
   \<and> map_option title
        (findById ''t1''
           (snd (updateTask exEnv (exReq ''u1'' ''t1'' [(Status, JStr ''completed'')]) exStore))) =
        Some (JStr ''Fix bug'')"
proof -
  have "findById ''t1'' (replaceFirst ''t1'' exDone exStore) = Some exDone"
    using findById_replaceFirst [of exDone "''t1''" "''t1''" exStore]
    by (simp add: ex_t1 exDone_def exTask_def)
  moreover have "title exDone = JStr ''Fix bug''"
    by (simp add: exDone_def exTask_def)
  ultimately show ?thesis
    by (simp add: ex_update ex_body ex_t1 exTask_def)
qed

section \<open>parseInt on decimal numerals\<close>

text \<open>A digit is neither white space nor a sign; the numeral of a positive number starts
  with a digit that is not zero, and its digits give the number back.\<close>

lemma radixDigit_digit: "(d::nat) < 10 \<Longrightarrow> radixDigit 10 (char_of (48 + d)) = Some d"
  by (simp add: radixDigit_def digitVal_def)

lemma isDigit_digit: "(d::nat) < 10 \<Longrightarrow> isDigit (char_of (48 + d))"
  by (simp add: isDigit_def)

lemma isDigit_not_ws:
  assumes "isDigit c"
  shows "\<not> isWs1 c" "\<not> isWs2 c a" "\<not> isWs3 c a b" "c \<noteq> CHR ''-''" "c \<noteq> CHR ''+''"
  using assms by (auto simp: isDigit_def isWs1_def isWs2_def isWs3_def)

lemma trimStart_other:
  assumes "\<not> isWs1 a" "\<And>b. \<not> isWs2 a b" "\<And>b c. \<not> isWs3 a b c"
  shows "trimStart (a # s) = a # s"
proof (cases s)
  case Nil
  with assms show ?thesis by simp
next
  case (Cons b s')
  then show ?thesis using assms by (cases s') simp_all
qed

lemma minus_not_ws: "\<not> isWs1 CHR ''-''" "\<not> isWs2 CHR ''-'' b" "\<not> isWs3 CHR ''-'' b c"
  by (simp_all add: isWs1_def isWs2_def isWs3_def)

lemma radixOf_nonzero: "c \<noteq> CHR ''0'' \<Longrightarrow> radixOf (c # s) = (10, c # s)"
  by (cases s) simp_all

lemma dec_first: "\<exists>c cs. dec n = c # cs \<and> isDigit c \<and> (0 < n \<longrightarrow> c \<noteq> CHR ''0'')"
proof (induction n rule: dec.induct)
  case (1 n)
  show ?case
  proof (cases "n < 10")
    case True
    have "0 < n \<longrightarrow> char_of (48 + n) \<noteq> CHR ''0''"
    proof
      assume "0 < n"
      with True have "(of_char (char_of (48 + n) :: char) :: nat) \<noteq> of_char CHR ''0''"
        by simp
      then show "char_of (48 + n) \<noteq> CHR ''0''" by metis
    qed
    with True show ?thesis
      by (simp add: dec.simps [of n] isDigit_digit)
  next
    case False
    then have "0 < n div 10" by simp
    with 1 False obtain c cs where "dec (n div 10) = c # cs" "isDigit c" "c \<noteq> CHR ''0''"
      by auto
    with False show ?thesis by (simp add: dec.simps [of n])
  qed
qed

lemma leadingDigits_dec:
  "\<exists>ds. leadingDigits 10 (dec n @ s) = ds @ leadingDigits 10 s \<and> ds \<noteq> []
        \<and> (\<forall>a. foldl (\<lambda>acc d. acc * 10 + d) a ds = a * 10 ^ length ds + n)"
proof (induction n arbitrary: s rule: dec.induct)
  case (1 n)
  show ?case
  proof (cases "n < 10")
    case True
    then have "leadingDigits 10 (dec n @ s) = [n] @ leadingDigits 10 s"
      by (simp add: dec.simps [of n] radixDigit_digit)
    moreover have "\<forall>a. foldl (\<lambda>acc d. acc * 10 + d) a [n] = a * 10 ^ length [n] + n"
      by simp
    ultimately show ?thesis by blast
  next
    case False
    let ?c = "char_of (48 + n mod 10) :: char"
    from 1 [OF False, of "?c # s"] obtain ds where
      ds: "leadingDigits 10 (dec (n div 10) @ ?c # s) = ds @ leadingDigits 10 (?c # s)"
      and f: "\<forall>a. foldl (\<lambda>acc d. acc * 10 + d) a ds = a * 10 ^ length ds + n div 10"
      by blast
    have "leadingDigits 10 (?c # s) = n mod 10 # leadingDigits 10 s"
      by (simp add: radixDigit_digit)
    with ds False have "leadingDigits 10 (dec n @ s) = (ds @ [n mod 10]) @ leadingDigits 10 s"
      by (simp add: dec.simps [of n])
    moreover have "foldl (\<lambda>acc d. acc * 10 + d) a (ds @ [n mod 10])
                 = a * 10 ^ length (ds @ [n mod 10]) + n" for a
      using f by (simp add: algebra_simps)
    ultimately show ?thesis by blast
  qed
qed

lemma parseInt_digits:
  assumes "isDigit c" "c \<noteq> CHR ''0''"
    and "leadingDigits 10 (c # s) = ds" "ds \<noteq> []"
  shows "parseInt (c # s) = Some (int (mathInt 10 ds))"
    and "parseInt (CHR ''-'' # c # s) = Some (- int (mathInt 10 ds))"
  using assms
  by (simp_all add: parseInt_def trimStart_other isDigit_not_ws minus_not_ws radixOf_nonzero)

lemma parseInt_dec:
  assumes "0 < n" "leadingDigits 10 s = []"
  shows "parseInt (dec n @ s) = Some (int n)"
    and "parseInt (CHR ''-'' # dec n @ s) = Some (- int n)"
proof -
  from dec_first [of n] assms obtain c cs where
    c: "dec n = c # cs" "isDigit c" "c \<noteq> CHR ''0''"
    by auto
  from leadingDigits_dec [of n s] assms obtain ds where
    ds: "leadingDigits 10 (dec n @ s) = ds" "ds \<noteq> []"
    and f: "\<forall>a. foldl (\<lambda>acc d. acc * 10 + d) a ds = a * 10 ^ length ds + n"
    by auto
  from f have m: "mathInt 10 ds = n" by (simp add: mathInt_def)
  from ds c have "leadingDigits 10 (c # cs @ s) = ds" by simp
  from parseInt_digits [OF c(2,3) this ds(2)] c m
  show "parseInt (dec n @ s) = Some (int n)"
    and "parseInt (CHR ''-'' # dec n @ s) = Some (- int n)"
    by simp_all
qed

lemma parseIntOr_dec: "0 < n \<Longrightarrow> parseIntOr (Some (dec n)) d = int n"
  using parseInt_dec(1) [of n "[]"] by (simp add: parseIntOr_def)

lemma isLetter_plain:
  assumes "isLetter c"
  shows "\<not> isWs1 c" "\<not> isWs2 c a" "\<not> isWs3 c a b" "c \<noteq> CHR ''-''" "c \<noteq> CHR ''+''"
    "c \<noteq> CHR ''0''" "radixDigit 10 c = None"
  using assms
  by (auto simp: isLetter_def isWs1_def isWs2_def isWs3_def radixDigit_def digitVal_def)

lemma parseInt_letter: "isLetter c \<Longrightarrow> parseInt (c # s) = None"
  by (simp add: parseInt_def trimStart_other isLetter_plain radixOf_nonzero)

lemma parseInt_zero: "parseInt (dec 0) = Some 0"
  by code_simp

lemma parseInt_undefined: "parseInt (toString None) = None"
  by (simp add: parseInt_letter isLetter_def)

lemma parseInt_empty: "parseInt [] = None"
  by (simp add: parseInt_def)

lemma dec_small:
  "dec 0 = ''0''" "dec 1 = ''1''" "dec 2 = ''2''" "dec 3 = ''3''" "dec 5 = ''5''" "dec 12 = ''12''"
  by code_simp+

section \<open>Pages of a sorted list\<close>

lemma paginate_pos:
  assumes "1 \<le> p" "1 \<le> l"
  shows "paginate e q p l ts =
           Inr \<lparr>count = length (take (nat l) (drop (nat ((p - 1) * l)) (sortDesc (filter (matches q) ts)))),
                total = length (filter (matches q) ts), page = p,
                pages = ceilDiv (int (length (filter (matches q) ts))) l,
                data = map (populate e)
                         (take (nat l) (drop (nat ((p - 1) * l)) (sortDesc (filter (matches q) ts))))\<rparr>"
proof -
  from assms have "0 \<le> (p - 1) * l" by (intro mult_nonneg_nonneg) auto
  then have "\<not> (p - 1) * l < 0" by simp
  with assms show ?thesis
    by (simp add: paginate_def Task_find_def limitTo_def countDocuments_def Let_def)
qed

lemma doc_populate [simp]: "doc (populate e t) = t"
  by (simp add: populate_def)

lemma map_doc_populate [simp]: "map (doc \<circ> populate e) xs = xs"
  by (induction xs) simp_all






lemma page_offset:
  fixes k :: nat and l :: int
  assumes "1 \<le> k" "1 \<le> l"
  shows "nat ((int k - 1) * l) = (k - 1) * nat l"
  using assms by (simp add: nat_mult_distrib nat_diff_distrib')

lemma listings_listing:
  assumes "(H, q) \<in> set (listings req)" "user req' = user req"
  shows "H e req' ts = listing e req' q ts"
  using assms
  by (auto simp: listings_def getTasks_def getAssignedTasks_def getCreatedTasks_def)

lemma listing_onPage:
  assumes "1 \<le> k"
  shows "listing e (onPage req k) q ts = paginate e q (int k) (parseIntOr (query_limit req) 3) ts"
  using assms by (simp add: listing_def onPage_def parseIntOr_dec)



lemma paginate_InrD:
  assumes "paginate e q p l ts = Inr r"
  shows "total r = length (filter (matches q) ts)"
    and "set (map doc (data r)) \<subseteq> set (filter (matches q) ts)"
proof -
  from assms obtain pg where
    pg: "Task_find q l ((p - 1) * l) ts = Some pg"
    and r: "r = \<lparr>count = length pg, total = countDocuments q ts, page = p,
                 pages = ceilDiv (int (countDocuments q ts)) l, data = map (populate e) pg\<rparr>"
    by (auto simp: paginate_def Let_def split: option.splits)
  from r show "total r = length (filter (matches q) ts)"
    by (simp add: countDocuments_def)
  from pg have "set pg \<subseteq> set (sortDesc (filter (matches q) ts))"
    by (auto simp: Task_find_def limitTo_def split: if_splits dest: in_set_takeD in_set_dropD)
  with r show "set (map doc (data r)) \<subseteq> set (filter (matches q) ts)"
    by (simp add: sortDesc_def)
qed


lemma on_some_page:
  fixes L :: nat
  assumes "0 < L" "t \<in> set S"
  shows "\<exists>k\<ge>1. t \<in> set (take L (drop ((k - 1) * L) S))"
proof -
  from assms obtain j where j: "j < length S" "S ! j = t"
    by (auto simp: in_set_conv_nth)
  define a where "a = j div L * L"
  define b where "b = j mod L"
  have ab: "a + b = j" by (simp add: a_def b_def)
  with j have len: "b < length (drop a S)" by simp
  from assms have lt: "b < L" by (simp add: b_def)
  from len lt ab j have "take L (drop a S) ! b = t" by simp
  moreover from lt len have "b < length (take L (drop a S))" by simp
  ultimately have "t \<in> set (take L (drop a S))"
    by (metis nth_mem)
  then have "t \<in> set (take L (drop ((Suc (j div L) - 1) * L) S))" by (simp add: a_def)
  then show ?thesis by (intro exI [of _ "Suc (j div L)"]) simp
qed

lemma listings_exactly:
  assumes "(H, q) \<in> set (listings req)" and "\<And>t. matches q t = P t"
  shows "listsExactly H P e req ts"
  unfolding listsExactly_def
proof (intro conjI allI impI ballI)
  fix r
  assume "H e req ts = Inr r"
  with assms(1) have "paginate e q (parseIntOr (query_page req) 1) (parseIntOr (query_limit req) 3) ts = Inr r"
    by (simp add: listings_listing listing_def)
  from paginate_InrD [OF this] assms(2)
  show "total r = length (filter P ts)" and "set (map doc (data r)) \<subseteq> {t \<in> set ts. P t}"
    by (auto cong: filter_cong)
next
  fix t
  let ?l = "parseIntOr (query_limit req) 3"
  let ?S = "sortDesc (filter (matches q) ts)"
  assume l: "1 \<le> ?l" and t: "t \<in> set ts" "P t"
  with assms(2) have "t \<in> set ?S" by (simp add: sortDesc_def)
  with l on_some_page [of "nat ?l" t ?S] obtain k where
    k: "1 \<le> k" "t \<in> set (take (nat ?l) (drop ((k - 1) * nat ?l) ?S))"
    by auto
  have "user (onPage req k) = user req" by (simp add: onPage_def)
  with assms(1) have "H e (onPage req k) ts = listing e (onPage req k) q ts"
    by (rule listings_listing)
  with k l have "dataOf (H e (onPage req k) ts) = take (nat ?l) (drop ((k - 1) * nat ?l) ?S)"
    by (simp add: listing_onPage paginate_pos page_offset)
  with k show "\<exists>k\<ge>1. t \<in> set (dataOf (H e (onPage req k) ts))" by auto
qed

section \<open>The listings of the example\<close>

lemma ex_list: "user (exList u pg lm) = u" "query_page (exList u pg lm) = pg"
  "query_limit (exList u pg lm) = lm"
  by (simp_all add: exList_def exReq_def)

lemma ex_parse:
  "parseIntOr None 1 = 1" "parseIntOr None 3 = 3"
  "parseIntOr (Some ''2'') 1 = 2" "parseIntOr (Some ''2'') 3 = 2"
  "parseIntOr (Some ''-2'') 1 = - 2" "parseIntOr (Some ''-5'') 3 = - 5"
  "parseIntOr (Some ''2abc'') 1 = 2"
  by code_simp+



lemma ex_first_page:
  "paginate exEnv q 1 3 exStore =
     Inr \<lparr>count = length (take 3 (sortDesc (filter (matches q) exStore))),
          total = length (filter (matches q) exStore), page = 1,
          pages = ceilDiv (int (length (filter (matches q) exStore))) 3,
          data = map (populate exEnv) (take 3 (sortDesc (filter (matches q) exStore)))\<rparr>"
  using paginate_pos [of 1 3 exEnv q exStore] by simp

section \<open>What each listing lists\<close>

text \<open>
  Claim C3. For every user \<open>u\<close>, the listing of the tasks assigned to \<open>u\<close> lists
  exactly the tasks with assignedTo \<open>u\<close> and createdBy other than \<open>u\<close> (so never a
  task that \<open>u\<close> created for themself), the listing of the tasks created by \<open>u\<close>
  lists exactly the tasks with createdBy \<open>u\<close> (those assigned to \<open>u\<close> included),
  and the listing of all tasks lists exactly the tasks with createdBy \<open>u\<close> or assignedTo
  \<open>u\<close>. Exactly: the total of every response is the number of those tasks, every task
  of a page is one of them, and each of them is on some page.
\<close>

theorem listing_filters:
  "listsExactly getAssignedTasks (\<lambda>t. assignedTo t = user req \<and> createdBy t \<noteq> user req) e req ts
   \<and> listsExactly getCreatedTasks (\<lambda>t. createdBy t = user req) e req ts
   \<and> listsExactly getTasks (\<lambda>t. createdBy t = user req \<or> assignedTo t = user req) e req ts"
proof (intro conjI)
  let ?u = "user req"
  show "listsExactly getAssignedTasks (\<lambda>t. assignedTo t = ?u \<and> createdBy t \<noteq> ?u) e req ts"
    by (rule listings_exactly [where q = "QAnd (QEq RefAssignedTo ?u) (QNe RefCreatedBy ?u)"])
       (simp_all add: listings_def)
  show "listsExactly getCreatedTasks (\<lambda>t. createdBy t = ?u) e req ts"
    by (rule listings_exactly [where q = "QEq RefCreatedBy ?u"]) (simp_all add: listings_def)
  show "listsExactly getTasks (\<lambda>t. createdBy t = ?u \<or> assignedTo t = ?u) e req ts"
    by (rule listings_exactly [where q = "QOr (QEq RefCreatedBy ?u) (QEq RefAssignedTo ?u)"])
       (simp_all add: listings_def)
qed

text \<open>In the example user u1 created the tasks t1, t2 and t5, is the assignee of t2 and
  t3, and created t2 for themself: the listing of the tasks assigned to u1 has t3 alone,
  and t2 is on a page of the listing of the tasks u1 created.\<close>

theorem listing_filters_witness:
  "1 \<le> parseIntOr (query_limit (exList ''u1'' None None)) 3
   \<and> exTask ''t2'' ''u1'' ''u1'' 200 \<in> set exStore
   \<and> (\<exists>k\<ge>1. exTask ''t2'' ''u1'' ''u1'' 200
              \<in> set (dataOf (getCreatedTasks exEnv (onPage (exList ''u1'' None None) k) exStore)))
   \<and> (\<exists>r. getAssignedTasks exEnv (exList ''u1'' None None) exStore = Inr r
          \<and> total r = 1
          \<and> exTask ''t2'' ''u1'' ''u1'' 200 \<notin> set (map doc (data r)))"
proof -
  let ?req = "exList ''u1'' None None"
  let ?t2 = "exTask ''t2'' ''u1'' ''u1'' 200"
  note lf = listing_filters [of ?req exEnv exStore, unfolded listsExactly_def]
  have l: "1 \<le> parseIntOr (query_limit ?req) 3"
    by (simp add: ex_list ex_parse)
  have t2: "?t2 \<in> set exStore" "createdBy ?t2 = user ?req" "assignedTo ?t2 = user ?req"
    by (simp_all add: exStore_def exTask_def ex_list)
  from lf l t2
  have a: "\<exists>k\<ge>1. ?t2 \<in> set (dataOf (getCreatedTasks exEnv (onPage ?req k) exStore))"
    by blast
  obtain r where r: "getAssignedTasks exEnv ?req exStore = Inr r"
    by (simp add: getAssignedTasks_def listing_def ex_list ex_parse ex_first_page)
  with lf have "total r = length (filter (\<lambda>t. assignedTo t = user ?req \<and> createdBy t \<noteq> user ?req) exStore)"
    and "set (map doc (data r)) \<subseteq> {t \<in> set exStore. assignedTo t = user ?req \<and> createdBy t \<noteq> user ?req}"
    by blast+
  with t2 have "total r = 1" "?t2 \<notin> set (map doc (data r))"
    by (auto simp: ex_list exStore_def exTask_def)
  with r have "\<exists>r. getAssignedTasks exEnv ?req exStore = Inr r \<and> total r = 1
                 \<and> ?t2 \<notin> set (map doc (data r))"
    by blast
  with l t2(1) a show ?thesis by (intro conjI)
qed

section \<open>Pagination\<close>



section \<open>Page and limit\<close>

text \<open>
  Claim C6, as the code has it. The three listings read the page number as
  \<^verbatim>\<open>parseInt(req.query.page) || 1\<close> and the page size as
  \<^verbatim>\<open>parseInt(req.query.limit) || 3\<close>. The default stands in exactly when
  \<^verbatim>\<open>parseInt\<close> gives NaN or zero: for an absent parameter, an empty text, a text
  that starts with a letter, and the numeral 0. Any other value is used as parsed: the
  decimal numeral of a positive number gives that number, whatever its size (the model
  reads numbers exactly; a JavaScript number does so up to \<open>2 ^ 53\<close>), also when other
  text follows the digits, and with a minus sign before it the negative number. So no
  bound is enforced, below or above, and the page size is never zero.
\<close>

theorem page_and_limit:
  "(\<forall>(H, q) \<in> set (listings req).
      H e req ts = paginate e q (parseIntOr (query_page req) 1) (parseIntOr (query_limit req) 3) ts)
   \<and> parseIntOr None d = d
   \<and> parseIntOr (Some []) d = d
   \<and> (isLetter c \<longrightarrow> parseIntOr (Some (c # s)) d = d)
   \<and> parseIntOr (Some (dec 0)) d = d
   \<and> (0 < n \<and> n \<le> 2 ^ 53 \<and> leadingDigits 10 s = [] \<longrightarrow>
        parseIntOr (Some (dec n @ s)) d = int n
        \<and> parseIntOr (Some (CHR ''-'' # dec n @ s)) d = - int n)
   \<and> (d \<noteq> 0 \<longrightarrow> parseIntOr x d \<noteq> 0)
   \<and> (parseInt (toString x) = None \<or> parseInt (toString x) = Some 0 \<longrightarrow> parseIntOr x d = d)
   \<and> (\<forall>k. parseInt (toString x) = Some k \<and> k \<noteq> 0 \<longrightarrow> parseIntOr x d = k)"
proof (intro conjI impI ballI allI)
  fix Hq
  assume "Hq \<in> set (listings req)"
  then show "case Hq of (H, q) \<Rightarrow>
      H e req ts = paginate e q (parseIntOr (query_page req) 1) (parseIntOr (query_limit req) 3) ts"
    by (auto simp: listings_listing listing_def)
next
  show "parseIntOr None d = d"
    using parseInt_undefined by (simp add: parseIntOr_def)
  show "parseIntOr (Some []) d = d"
    by (simp add: parseIntOr_def parseInt_empty)
  show "parseIntOr (Some (c # s)) d = d" if "isLetter c"
    using that by (simp add: parseIntOr_def parseInt_letter)
  show "parseIntOr (Some (dec 0)) d = d"
    by (simp add: parseIntOr_def parseInt_zero)
  show "parseIntOr x d \<noteq> 0" if "d \<noteq> 0"
    using that by (simp add: parseIntOr_def split: option.splits)
  show "parseIntOr x d = d" if "parseInt (toString x) = None \<or> parseInt (toString x) = Some 0"
    using that by (auto simp: parseIntOr_def)
  show "parseIntOr x d = k" if "parseInt (toString x) = Some k \<and> k \<noteq> 0" for k
    using that by (simp add: parseIntOr_def)
next
  assume "0 < n \<and> n \<le> 2 ^ 53 \<and> leadingDigits 10 s = []"
  then have n: "0 < n" "leadingDigits 10 s = []" by simp_all
  from parseInt_dec [OF n] n(1)
  show "parseIntOr (Some (dec n @ s)) d = int n"
    and "parseIntOr (Some (CHR ''-'' # dec n @ s)) d = - int n"
    by (simp_all add: parseIntOr_def)
qed

theorem page_and_limit_witness:
  "parseIntOr (Some ''12'') 1 = 12
   \<and> parseIntOr (Some ''12abc'') 3 = 12
   \<and> parseIntOr (Some ''-5'') 3 = - 5
   \<and> parseIntOr (Some ''abc'') 3 = 3
   \<and> parseIntOr (Some ''0'') 3 = 3
   \<and> parseIntOr None 1 = 1"
proof -
  have l: "isLetter CHR ''a''" by (simp add: isLetter_def)
  have g: "leadingDigits 10 ''abc'' = []" "leadingDigits 10 [] = []"
    by (simp_all add: radixDigit_def digitVal_def)
  have b: "(0::nat) < 12 \<and> (12::nat) \<le> 2 ^ 53 \<and> leadingDigits 10 ''abc'' = []"
    "(0::nat) < 12 \<and> (12::nat) \<le> 2 ^ 53 \<and> leadingDigits 10 [] = []"
    "(0::nat) < 5 \<and> (5::nat) \<le> 2 ^ 53 \<and> leadingDigits 10 [] = []"
    using g by simp_all
  from page_and_limit [where d = 1 and n = 12 and s = "[]"] b
  have "parseIntOr (Some ''12'') 1 = 12"
    by (simp add: dec_small)
  moreover from page_and_limit [where d = 3 and n = 12 and s = "''abc''"] b
  have "parseIntOr (Some ''12abc'') 3 = 12"
    by (simp add: dec_small)
  moreover from page_and_limit [where d = 3 and n = 5 and s = "[]"] b
  have "parseIntOr (Some ''-5'') 3 = - 5"
    by (simp add: dec_small)
  moreover from page_and_limit [where d = 3 and c = "CHR ''a''" and s = "''bc''"] l
  have "parseIntOr (Some ''abc'') 3 = 3" "parseIntOr (Some ''0'') 3 = 3"
    by (simp_all add: dec_small)
  moreover from page_and_limit [where d = 1] have "parseIntOr None 1 = 1"
    by simp
  ultimately show ?thesis by simp
qed

text \<open>
  The claim as it was stated fails: a page of -2 and a page size of -5 are out of
  range and are not replaced by 1 and 3, and the malformed page \<^verbatim>\<open>2abc\<close> counts as 2,
  which the response shows.
\<close>

theorem page_and_limit_counterexample:
  "parseIntOr (Some ''-2'') 1 = - 2
   \<and> parseIntOr (Some ''-5'') 3 = - 5
   \<and> parseIntOr (Some ''2abc'') 1 = 2
   \<and> map_sum id page (getTasks exEnv (exList ''u1'' (Some ''2abc'') (Some ''2'')) exStore) = Inr 2"
proof -
  have "map_sum id page (getTasks exEnv (exList ''u1'' (Some ''2abc'') (Some ''2'')) exStore) = Inr 2"
    using paginate_pos [of 2 2 exEnv _ exStore]
    by (simp add: getTasks_def listing_def ex_list ex_parse)
  then show ?thesis by (simp add: ex_parse)
qed

end
